theory Spec2Isabelle
  imports Main
begin

section \<open>The intermediate representation\<close>

text \<open>
  The pass of \<^verbatim>\<open>tf_kernel_to_llvm_pass.cc\<close> rewrites \<^verbatim>\<open>gpu.launch_func\<close> operations of an
  MLIR module into calls of the TensorFlow runtime. The module is modelled as the list of
  its top-level operations, a function as the list of the operations of its body, and an
  SSA value as an identifier together with its type.
\<close>

datatype ty =
    IndexType
  | MemRefType nat
  | UnrankedMemRefType
  | AsyncTokenType
  | OpKernelContextType
  | LLVMVoidTy
  | LLVMIntTy nat
  | LLVMPointerTy ty
  | LLVMStructTy "ty list"
  | LLVMArrayTy ty nat
  | LLVMFunctionTy ty "ty list"

datatype val = Val (vid: nat) (getType: ty)

text \<open>
  \<^verbatim>\<open>gpu::LaunchFuncOp\<close>: the operands are the asynchronous dependencies, then the six
  launch dimensions, then the kernel operands; the optional result is the asynchronous
  token; the \<^verbatim>\<open>kernel\<close> attribute is the symbol reference \<^verbatim>\<open>@module::@kernel\<close>.
\<close>

record launch =
  asyncDependencies :: "val list"
  asyncToken :: "val option"
  getKernelModuleName :: string
  getKernelName :: string
  gridSizeX :: val
  gridSizeY :: val
  gridSizeZ :: val
  blockSizeX :: val
  blockSizeY :: val
  blockSizeZ :: val
  kernelOperands :: "val list"

datatype op =
    ConstantOp val int
  | AllocaOp val val
  | GEPOp val val "val list"
  | StoreOp val val
  | BitcastOp val val
  | ExtractValueOp val val "nat list"
  | AddressOfOp val string
  | CallOp ty string "val list"
  | LaunchFuncOp launch

datatype linkage = Internal | External

datatype attr = StringAttr string | IntegerAttr int | UnitAttr

text \<open>
  Top-level operations: \<^verbatim>\<open>LLVM::GlobalOp\<close> (symbol name, type, constness, linkage,
  value), \<^verbatim>\<open>LLVM::LLVMFuncOp\<close> (symbol name, function type, arguments of the entry block,
  body; a declaration has neither arguments nor body) and \<^verbatim>\<open>gpu::GPUModuleOp\<close> (symbol
  name, attribute dictionary).
\<close>

datatype top_op =
    GlobalOp string ty bool linkage string
  | LLVMFuncOp string ty "val list" "op list"
  | GPUModuleOp string "(string \<times> attr) list"

fun getName :: "top_op \<Rightarrow> string" where
  "getName (GlobalOp n t c l v) = n"
| "getName (LLVMFuncOp n t args ops) = n"
| "getName (GPUModuleOp n attrs) = n"

fun isGPUModuleOp :: "top_op \<Rightarrow> bool" where
  "isGPUModuleOp (GPUModuleOp n attrs) = True"
| "isGPUModuleOp t = False"

fun isLaunchFuncOp :: "op \<Rightarrow> bool" where
  "isLaunchFuncOp (LaunchFuncOp l) = True"
| "isLaunchFuncOp x = False"

fun isCallOf :: "string \<Rightarrow> op \<Rightarrow> bool" where
  "isCallOf n (CallOp t callee args) = (callee = n)"
| "isCallOf n x = False"

fun isGlobalNamed :: "string \<Rightarrow> top_op \<Rightarrow> bool" where
  "isGlobalNamed n (GlobalOp m t c l v) = (m = n)"
| "isGlobalNamed n t = False"

fun isFuncNamed :: "string \<Rightarrow> top_op \<Rightarrow> bool" where
  "isFuncNamed n (LLVMFuncOp m t args ops) = (m = n)"
| "isFuncNamed n t = False"

fun getBody :: "top_op \<Rightarrow> op list" where
  "getBody (LLVMFuncOp n t args ops) = ops"
| "getBody t = []"

definition kNumConfigOperands :: nat where
  "kNumConfigOperands = 6"

definition getOperands :: "launch \<Rightarrow> val list" where
  "getOperands l =
     asyncDependencies l
     @ [gridSizeX l, gridSizeY l, gridSizeZ l, blockSizeX l, blockSizeY l, blockSizeZ l]
     @ kernelOperands l"

definition getNumKernelOperands :: "launch \<Rightarrow> nat" where
  "getNumKernelOperands l =
     length (getOperands l) - length (asyncDependencies l) - kNumConfigOperands"

text \<open>\<^verbatim>\<open>ArrayRef::take_back(n)\<close>: the last \<open>n\<close> elements, everything when there are fewer.\<close>

definition take_back :: "nat \<Rightarrow> 'a list \<Rightarrow> 'a list" where
  "take_back n xs = (if n \<ge> length xs then xs else drop (length xs - n) xs)"

section \<open>The rewriter\<close>

text \<open>
  While a launch operation is rewritten, the module is the top-level operations before
  the enclosing function, that function, and the top-level operations after it; the body
  of the function is the operations before the insertion point (which is just before the
  launch operation), the launch operation, and the operations after it. New values get
  the next unused identifier. Diagnostics are collected in emission order; the reason given
  to \<^verbatim>\<open>notifyMatchFailure\<close> is kept with them. The rewriter is the builder of the conversion
  driver, which records what is created and erased through it. An operation created with
  another builder is in the module all the same, but the driver does not know of it:
  these operations are listed in \<open>untracked\<close> too.
\<close>

datatype diagnostic =
    MatchFailure string
  | OpError string string

record rewriter =
  tops_before :: "top_op list"
  parent_name :: string
  parent_type :: ty
  parent_args :: "val list"
  ops_before :: "op list"
  ops_after :: "op list"
  tops_after :: "top_op list"
  next_value :: nat
  diagnostics :: "diagnostic list"
  untracked :: "top_op list"

datatype LogicalResult = success | failure

definition module_view :: "launch \<Rightarrow> rewriter \<Rightarrow> top_op list" where
  "module_view launch_op r =
     tops_before r
     @ [LLVMFuncOp (parent_name r) (parent_type r) (parent_args r)
          (ops_before r @ [LaunchFuncOp launch_op] @ ops_after r)]
     @ tops_after r"

text \<open>
  \<^verbatim>\<open>builder.create<Op>(...)\<close> for an operation with one result: the operation is inserted at
  the insertion point and its result is a new value of the given type.
\<close>

definition create :: "(val \<Rightarrow> op) \<Rightarrow> ty \<Rightarrow> rewriter \<Rightarrow> val \<times> rewriter" where
  "create mk t r =
     (let v = Val (next_value r) t
      in (v, r\<lparr>ops_before := ops_before r @ [mk v], next_value := Suc (next_value r)\<rparr>))"

definition insert_op :: "op \<Rightarrow> rewriter \<Rightarrow> rewriter" where
  "insert_op x r = r\<lparr>ops_before := ops_before r @ [x]\<rparr>"

definition insert_at_module_start :: "top_op \<Rightarrow> rewriter \<Rightarrow> rewriter" where
  "insert_at_module_start t r = r\<lparr>tops_before := t # tops_before r\<rparr>"

text \<open>
  \<^verbatim>\<open>OpBuilder moduleBuilder(module.getBodyRegion())\<close> followed by
  \<^verbatim>\<open>moduleBuilder.create<Op>(...)\<close>: a new builder, without listener, that inserts at the
  start of the module.
\<close>

definition moduleBuilder_create :: "top_op \<Rightarrow> rewriter \<Rightarrow> rewriter" where
  "moduleBuilder_create t r =
     r\<lparr>tops_before := t # tops_before r, untracked := t # untracked r\<rparr>"

definition notifyMatchFailure :: "string \<Rightarrow> rewriter \<Rightarrow> LogicalResult \<times> rewriter" where
  "notifyMatchFailure msg r = (failure, r\<lparr>diagnostics := diagnostics r @ [MatchFailure msg]\<rparr>)"

definition emitOpError :: "top_op \<Rightarrow> string \<Rightarrow> rewriter \<Rightarrow> rewriter" where
  "emitOpError t msg r = r\<lparr>diagnostics := diagnostics r @ [OpError (getName t) msg]\<rparr>"

subsection \<open>Library functions the pattern calls\<close>

text \<open>
  \<^verbatim>\<open>SymbolTable::lookupSymbolIn\<close> scans the body of the symbol table for the first
  operation with the given symbol name; \<^verbatim>\<open>lookupNearestSymbolFrom<T>\<close> casts what it finds
  to \<open>T\<close> and yields null when the operation found is of another kind.
\<close>

definition lookupSymbolIn :: "top_op list \<Rightarrow> string \<Rightarrow> top_op option" where
  "lookupSymbolIn m n = find (\<lambda>t. getName t = n) m"

definition lookupNearestSymbolFrom_GPUModuleOp :: "top_op list \<Rightarrow> string \<Rightarrow> top_op option" where
  "lookupNearestSymbolFrom_GPUModuleOp m n =
     (case lookupSymbolIn m n of
        Some (GPUModuleOp k attrs) \<Rightarrow> Some (GPUModuleOp k attrs)
      | _ \<Rightarrow> None)"

definition lookupNearestSymbolFrom_LLVMFuncOp :: "top_op list \<Rightarrow> string \<Rightarrow> top_op option" where
  "lookupNearestSymbolFrom_LLVMFuncOp m n =
     (case lookupSymbolIn m n of
        Some (LLVMFuncOp k t args ops) \<Rightarrow> Some (LLVMFuncOp k t args ops)
      | _ \<Rightarrow> None)"

text \<open>
  \<^verbatim>\<open>getAttrOfType<StringAttr>(name)\<close>: the attribute of that name when it is a string
  attribute, null otherwise.
\<close>

fun getAttrOfType_StringAttr :: "top_op \<Rightarrow> string \<Rightarrow> string option" where
  "getAttrOfType_StringAttr (GPUModuleOp n attrs) key =
     (case map_of attrs key of Some (StringAttr s) \<Rightarrow> Some s | _ \<Rightarrow> None)"
| "getAttrOfType_StringAttr t key = None"

definition llvm_void_type :: ty where
  "llvm_void_type = LLVMVoidTy"

definition llvm_int8_type :: ty where
  "llvm_int8_type = LLVMIntTy 8"

definition llvm_int32_type :: ty where
  "llvm_int32_type = LLVMIntTy 32"

definition llvm_int64_type :: ty where
  "llvm_int64_type = LLVMIntTy 64"

definition llvm_pointer_type :: ty where
  "llvm_pointer_type = LLVMPointerTy (LLVMIntTy 8)"

definition llvm_pointer_pointer_type :: ty where
  "llvm_pointer_pointer_type = LLVMPointerTy llvm_pointer_type"

text \<open>
  \<^verbatim>\<open>LLVM::createGlobalString\<close> (MLIR's LLVM dialect) creates a constant global holding the
  bytes of \<open>value\<close> at the entry of the module, with a builder of its own, and at the
  insertion point of the builder it is given the address of the global, a zero constant
  and the address of the first byte, which it returns. It does not look the name up
  first.
\<close>

definition createGlobalString ::
  "string \<Rightarrow> string \<Rightarrow> linkage \<Rightarrow> rewriter \<Rightarrow> val \<times> rewriter" where
  "createGlobalString name value lnk r =
     (let type = LLVMArrayTy llvm_int8_type (length value);
          r0 = moduleBuilder_create (GlobalOp name type True lnk value) r;
          (globalPtr, r1) = create (\<lambda>v. AddressOfOp v name) (LLVMPointerTy type) r0;
          (cst0, r2) = create (\<lambda>v. ConstantOp v 0) llvm_int64_type r1
      in create (\<lambda>v. GEPOp v globalPtr [cst0, cst0]) llvm_pointer_type r2)"

text \<open>
  \<^verbatim>\<open>LLVMTypeConverter::promoteOperands\<close> with the default options of the converter (no
  bare-pointer calling convention): an operand whose original type is a ranked memref is
  unpacked into the fields of its descriptor (allocated pointer, aligned pointer, offset,
  sizes, strides), one whose type is an unranked memref into rank and descriptor pointer,
  each with an \<^verbatim>\<open>llvm.extractvalue\<close>; any other operand is passed as converted.
\<close>

fun getStructElementType :: "ty \<Rightarrow> nat \<Rightarrow> ty" where
  "getStructElementType (LLVMStructTy ts) i = (if i < length ts then ts ! i else LLVMVoidTy)"
| "getStructElementType t i = LLVMVoidTy"

fun extract_all :: "val \<Rightarrow> (nat list \<times> ty) list \<Rightarrow> rewriter \<Rightarrow> val list \<times> rewriter" where
  "extract_all d [] b = ([], b)"
| "extract_all d ((pos, t) # ps) b =
     (let (v, b1) = create (\<lambda>v. ExtractValueOp v d pos) t b;
          (vs, b2) = extract_all d ps b1
      in (v # vs, b2))"

definition MemRefDescriptor_unpack :: "val \<Rightarrow> nat \<Rightarrow> rewriter \<Rightarrow> val list \<times> rewriter" where
  "MemRefDescriptor_unpack packed rank b =
     (let t = getType packed;
          indexType = getStructElementType t 2
      in extract_all packed
           ([([0], getStructElementType t 0),
             ([1], getStructElementType t 1),
             ([2], indexType)]
            @ map (\<lambda>i. ([3, i], indexType)) [0..<rank]
            @ map (\<lambda>i. ([4, i], indexType)) [0..<rank]) b)"

definition UnrankedMemRefDescriptor_unpack :: "val \<Rightarrow> rewriter \<Rightarrow> val list \<times> rewriter" where
  "UnrankedMemRefDescriptor_unpack packed b =
     (let t = getType packed
      in extract_all packed
           [([0], getStructElementType t 0), ([1], getStructElementType t 1)] b)"

fun promoteOperands :: "val list \<Rightarrow> val list \<Rightarrow> rewriter \<Rightarrow> val list \<times> rewriter" where
  "promoteOperands (operand # opOperands) (llvmOperand # operands) b =
     (case getType operand of
        UnrankedMemRefType \<Rightarrow>
          (let (vs, b1) = UnrankedMemRefDescriptor_unpack llvmOperand b;
               (ws, b2) = promoteOperands opOperands operands b1
           in (vs @ ws, b2))
      | MemRefType rank \<Rightarrow>
          (let (vs, b1) = MemRefDescriptor_unpack llvmOperand rank b;
               (ws, b2) = promoteOperands opOperands operands b1
           in (vs @ ws, b2))
      | _ \<Rightarrow>
          (let (ws, b2) = promoteOperands opOperands operands b
           in (llvmOperand # ws, b2)))"
| "promoteOperands opOperands operands b = ([], b)"

section \<open>The launch rewrite pattern\<close>

record pattern =
  gpu_binary_annotation :: string
  pointer_bitwidth :: nat

definition kTfWrapperLibaryLaunchHelperName :: string where
  "kTfWrapperLibaryLaunchHelperName = ''tfKernelGenLaunchKernel''"

definition llvm_intptr_type :: "pattern \<Rightarrow> ty" where
  "llvm_intptr_type p = LLVMIntTy (pointer_bitwidth p)"

subsection \<open>generateParamsArray\<close>

text \<open>
  The loop over \<^verbatim>\<open>llvm::enumerate(arguments)\<close>, from index \<open>i\<close> on. The constants carry
  the index and the number of arguments as integers: an operation has fewer than \<open>2^31\<close>
  operands, so the 32-bit attribute holds them unchanged.
\<close>

fun params_loop ::
  "val \<Rightarrow> val \<Rightarrow> val \<Rightarrow> ty list \<Rightarrow> nat \<Rightarrow> val list \<Rightarrow> rewriter \<Rightarrow> rewriter" where
  "params_loop struct_ptr array_ptr zero argument_types i [] b = b"
| "params_loop struct_ptr array_ptr zero argument_types i (a # as) b =
     (let (index, b1) = create (\<lambda>v. ConstantOp v (int i)) llvm_int32_type b;
          (field_ptr, b2) =
             create (\<lambda>v. GEPOp v struct_ptr [zero, index])
               (LLVMPointerTy (argument_types ! i)) b1;
          b3 = insert_op (StoreOp a field_ptr) b2;
          (element_ptr, b4) =
             create (\<lambda>v. GEPOp v array_ptr [index]) llvm_pointer_pointer_type b3;
          (casted, b5) = create (\<lambda>v. BitcastOp v field_ptr) llvm_pointer_type b4;
          b6 = insert_op (StoreOp casted element_ptr) b5
      in params_loop struct_ptr array_ptr zero argument_types (Suc i) as b6)"

text \<open>
  \<^verbatim>\<open>argument.getType().cast<LLVM::LLVMType>()\<close> asserts that the type is one of the LLVM
  dialect. \<^verbatim>\<open>LLVM::LLVMType::createStructTy(elements, name)\<close> is the overload without a
  context: it takes the context from the first element and asserts that there is one.
\<close>

fun isLLVMType :: "ty \<Rightarrow> bool" where
  "isLLVMType LLVMVoidTy = True"
| "isLLVMType (LLVMIntTy w) = True"
| "isLLVMType (LLVMPointerTy t) = True"
| "isLLVMType (LLVMStructTy ts) = True"
| "isLLVMType (LLVMArrayTy t n) = True"
| "isLLVMType (LLVMFunctionTy t ts) = True"
| "isLLVMType t = False"

fun createStructTy :: "ty list \<Rightarrow> string + ty" where
  "createStructTy [] = Inl ''This method may not be invoked with an empty list''"
| "createStructTy elements = Inr (LLVMStructTy elements)"

definition generateParamsArray ::
  "launch \<Rightarrow> val list \<Rightarrow> rewriter \<Rightarrow> string + (val \<times> rewriter)" where
  "generateParamsArray launch_op operands builder =
     (let num_kernel_operands = getNumKernelOperands launch_op;
          (arguments, b0) =
             promoteOperands (take_back num_kernel_operands (getOperands launch_op))
               (take_back num_kernel_operands operands) builder;
          num_arguments = length arguments;
          argument_types = map getType arguments
      in if \<not> list_all isLLVMType argument_types
         then Inl ''cast<Ty>() argument of incompatible type''
         else
           case createStructTy argument_types of
             Inl e \<Rightarrow> Inl e
           | Inr struct_type \<Rightarrow>
             (let (one, b1) = create (\<lambda>v. ConstantOp v 1) llvm_int32_type b0;
                  (struct_ptr, b2) =
                     create (\<lambda>v. AllocaOp v one) (LLVMPointerTy struct_type) b1;
                  (array_size, b3) =
                     create (\<lambda>v. ConstantOp v (int num_arguments)) llvm_int32_type b2;
                  (array_ptr, b4) =
                     create (\<lambda>v. AllocaOp v array_size) llvm_pointer_pointer_type b3;
                  (zero, b5) = create (\<lambda>v. ConstantOp v 0) llvm_int32_type b4
              in Inr (array_ptr,
                      params_loop struct_ptr array_ptr zero argument_types 0 arguments b5)))"

subsection \<open>matchAndRewrite\<close>

text \<open>
  The operand adaptor reads the converted operands by segment: the dimensions follow the
  asynchronous dependencies.
\<close>

definition adaptor_operand :: "launch \<Rightarrow> val list \<Rightarrow> nat \<Rightarrow> val" where
  "adaptor_operand launch_op operands k = operands ! (length (asyncDependencies launch_op) + k)"

definition entry_point_type :: "pattern \<Rightarrow> ty" where
  "entry_point_type p =
     LLVMFunctionTy llvm_void_type
       [llvm_pointer_type, llvm_pointer_type, llvm_pointer_type,
        llvm_intptr_type p, llvm_intptr_type p, llvm_intptr_type p,
        llvm_intptr_type p, llvm_intptr_type p, llvm_intptr_type p,
        llvm_pointer_pointer_type]"

text \<open>
  A failed \<^verbatim>\<open>assert\<close> and a read out of range end the process; they are the left
  results. Otherwise the pattern returns a \<^verbatim>\<open>LogicalResult\<close> and the rewriter as it has
  changed it. On success the launch operation is erased: the state returned no longer
  has it between \<open>ops_before\<close> and \<open>ops_after\<close>.
\<close>

definition matchAndRewrite ::
  "pattern \<Rightarrow> launch \<Rightarrow> val list \<Rightarrow> rewriter \<Rightarrow> string + (LogicalResult \<times> rewriter)" where
  "matchAndRewrite p launch_op operands rewriter =
     (if asyncDependencies launch_op \<noteq> [] \<or> asyncToken launch_op \<noteq> None then
        Inr (notifyMatchFailure ''Cannot convert with async dependency or result.'' rewriter)
      else
        case lookupNearestSymbolFrom_GPUModuleOp (module_view launch_op rewriter)
               (getKernelModuleName launch_op) of
          None \<Rightarrow> Inl ''expected a kernel module''
        | Some kernel_module \<Rightarrow>
          (case getAttrOfType_StringAttr kernel_module (gpu_binary_annotation p) of
             None \<Rightarrow>
               Inr (failure,
                    emitOpError kernel_module
                      (''missing '' @ gpu_binary_annotation p @ '' attribute'') rewriter)
           | Some binary_attr \<Rightarrow>
             (let name_buffer = getName kernel_module @ ''_blob'';
                  (module_blob, r1) =
                     createGlobalString name_buffer binary_attr Internal rewriter;
                  kernel_name = getKernelName launch_op;
                  kernel_name_buffer = kernel_name @ [CHR 0x00];
                  kernel_name_global_name =
                     getName kernel_module @ ''_'' @ kernel_name @ ''_kernel_name'';
                  (kernel_name_global, r2) =
                     createGlobalString kernel_name_global_name kernel_name_buffer Internal r1
              in if length operands < length (asyncDependencies launch_op) + kNumConfigOperands
                 then Inl ''operand index out of range''
                 else
                   case parent_args r2 of
                     [] \<Rightarrow> Inl ''argument index out of range''
                   | context_arg # other_args \<Rightarrow>
                     (case generateParamsArray launch_op operands r2 of
                        Inl e \<Rightarrow> Inl e
                      | Inr (kernel_params, r3) \<Rightarrow>
                     (let r4 = (case lookupNearestSymbolFrom_LLVMFuncOp
                                       (module_view launch_op r3)
                                       kTfWrapperLibaryLaunchHelperName of
                                  Some function \<Rightarrow> r3
                                | None \<Rightarrow>
                                    insert_at_module_start
                                      (LLVMFuncOp kTfWrapperLibaryLaunchHelperName
                                         (entry_point_type p) [] []) r3);
                          r5 = insert_op
                                 (CallOp llvm_void_type kTfWrapperLibaryLaunchHelperName
                                    [context_arg, module_blob, kernel_name_global,
                                     adaptor_operand launch_op operands 0,
                                     adaptor_operand launch_op operands 1,
                                     adaptor_operand launch_op operands 2,
                                     adaptor_operand launch_op operands 3,
                                     adaptor_operand launch_op operands 4,
                                     adaptor_operand launch_op operands 5,
                                     kernel_params]) r4
                      in Inr (success, r5))))))"

section \<open>The pass\<close>

subsection \<open>The conversion driver\<close>

text \<open>
  \<^verbatim>\<open>applyFullConversion\<close> belongs to MLIR. Under the target of this pass the operations
  of the LLVM dialect, the module and the GPU modules are legal, GPU modules are not
  entered, and a launch operation is illegal and has one pattern. The driver is modelled
  as one walk over the functions and their bodies in order: a legal operation stays, a
  launch operation is handed to the pattern together with its remapped operands, and the
  first pattern failure fails the conversion. On failure the driver undoes what was done
  through its rewriter, the operations created and the erasures. What it does not know of
  stays: the globals that \<^verbatim>\<open>createGlobalString\<close> created with its own builder remain at the
  start of the module, and the diagnostics remain emitted. The walk over the module yields
  the converted module when it succeeds and the untracked globals when it fails.
\<close>

fun convert_block ::
  "pattern \<Rightarrow> (val \<Rightarrow> val) \<Rightarrow> op list \<Rightarrow> rewriter \<Rightarrow> string + (LogicalResult \<times> rewriter)" where
  "convert_block p remap [] r = Inr (success, r)"
| "convert_block p remap (x # rest) r =
     (case x of
        LaunchFuncOp l \<Rightarrow>
          (case matchAndRewrite p l (map remap (getOperands l)) (r\<lparr>ops_after := rest\<rparr>) of
             Inl e \<Rightarrow> Inl e
           | Inr (failure, r') \<Rightarrow> Inr (failure, r')
           | Inr (success, r') \<Rightarrow> convert_block p remap rest r')
      | _ \<Rightarrow> convert_block p remap rest (r\<lparr>ops_before := ops_before r @ [x], ops_after := rest\<rparr>))"

fun convert_tops ::
  "pattern \<Rightarrow> (val \<Rightarrow> val) \<Rightarrow> top_op list \<Rightarrow> top_op list \<Rightarrow> nat \<Rightarrow> diagnostic list
     \<Rightarrow> top_op list \<Rightarrow> string + (LogicalResult \<times> top_op list \<times> diagnostic list)" where
  "convert_tops p remap front [] n ds u = Inr (success, front, ds)"
| "convert_tops p remap front (t # rest) n ds u =
     (case t of
        LLVMFuncOp name fty args ops \<Rightarrow>
          (case convert_block p remap ops
                  \<lparr>tops_before = front, parent_name = name, parent_type = fty,
                   parent_args = args, ops_before = [], ops_after = ops,
                   tops_after = rest, next_value = n, diagnostics = ds,
                   untracked = u\<rparr> of
             Inl e \<Rightarrow> Inl e
           | Inr (failure, r) \<Rightarrow> Inr (failure, untracked r, diagnostics r)
           | Inr (success, r) \<Rightarrow>
               convert_tops p remap
                 (tops_before r @ [LLVMFuncOp name fty args (ops_before r)]) rest
                 (next_value r) (diagnostics r) (untracked r))
      | _ \<Rightarrow> convert_tops p remap (front @ [t]) rest n ds u)"

fun op_values :: "op \<Rightarrow> val list" where
  "op_values (ConstantOp r n) = [r]"
| "op_values (AllocaOp r c) = [r, c]"
| "op_values (GEPOp r b idx) = r # b # idx"
| "op_values (StoreOp v a) = [v, a]"
| "op_values (BitcastOp r a) = [r, a]"
| "op_values (ExtractValueOp r a pos) = [r, a]"
| "op_values (AddressOfOp r n) = [r]"
| "op_values (CallOp t n args) = args"
| "op_values (LaunchFuncOp l) =
     getOperands l @ (case asyncToken l of None \<Rightarrow> [] | Some v \<Rightarrow> [v])"

fun top_values :: "top_op \<Rightarrow> val list" where
  "top_values (LLVMFuncOp n t args ops) = args @ concat (map op_values ops)"
| "top_values t = []"

definition next_free :: "top_op list \<Rightarrow> nat" where
  "next_free m = Suc (fold max (map vid (concat (map top_values m))) 0)"

definition applyFullConversion ::
  "pattern \<Rightarrow> (val \<Rightarrow> val) \<Rightarrow> top_op list
     \<Rightarrow> string + (LogicalResult \<times> top_op list \<times> diagnostic list)" where
  "applyFullConversion p remap m =
     (case convert_tops p remap [] m (next_free m) [] [] of
        Inl e \<Rightarrow> Inl e
      | Inr (failure, globals, ds) \<Rightarrow> Inr (failure, globals @ m, ds)
      | Inr (success, m', ds) \<Rightarrow> Inr (success, m', ds))"

subsection \<open>TFKernelToLLVMPass\<close>

text \<open>
  The constructor keeps the default annotation key of the pass options (declared in the
  generated \<^verbatim>\<open>kernel_gen_passes.h.inc\<close>, here a parameter) when it is given an empty one.
\<close>

definition TFKernelToLLVMPass :: "string \<Rightarrow> string \<Rightarrow> string" where
  "TFKernelToLLVMPass default_annotation blob_annotation =
     (if blob_annotation \<noteq> [] then blob_annotation else default_annotation)"

record pass_state =
  module_after :: "top_op list"
  pass_failed :: bool
  pass_diagnostics :: "diagnostic list"

text \<open>
  \<^verbatim>\<open>runOnOperation\<close>: the conversion is applied, a failure is signalled, and then the GPU
  modules in the body of the module are erased.
\<close>

definition strip_gpu_modules :: "top_op list \<Rightarrow> top_op list" where
  "strip_gpu_modules m = filter (\<lambda>t. \<not> isGPUModuleOp t) m"

definition runOnOperation ::
  "pattern \<Rightarrow> (val \<Rightarrow> val) \<Rightarrow> top_op list \<Rightarrow> string + pass_state" where
  "runOnOperation p remap m =
     (case applyFullConversion p remap m of
        Inl e \<Rightarrow> Inl e
      | Inr (res, m', ds) \<Rightarrow>
          Inr \<lparr>module_after = strip_gpu_modules m',
               pass_failed = (res = failure),
               pass_diagnostics = ds\<rparr>)"

section \<open>Auxiliary notions for the proofs\<close>

text \<open>
  The state after a number of insertions: operations at the start of the module, of which
  the globals are those created with the builder of \<^verbatim>\<open>createGlobalString\<close>, operations at
  the insertion point, and new values.
\<close>

fun isGlobalOp :: "top_op \<Rightarrow> bool" where
  "isGlobalOp (GlobalOp n t c l v) = True"
| "isGlobalOp t = False"

definition grows :: "rewriter \<Rightarrow> top_op list \<Rightarrow> op list \<Rightarrow> nat \<Rightarrow> rewriter" where
  "grows b new ops k =
     b\<lparr>tops_before := new @ tops_before b, ops_before := ops_before b @ ops,
       next_value := next_value b + k,
       untracked := filter isGlobalOp new @ untracked b\<rparr>"

definition plain :: "op \<Rightarrow> bool" where
  "plain x = (\<not> isLaunchFuncOp x \<and> \<not> isCallOf kTfWrapperLibaryLaunchHelperName x)"

definition extends :: "rewriter \<Rightarrow> rewriter \<Rightarrow> bool" where
  "extends b b' = (\<exists>xs k. b' = grows b [] xs k \<and> list_all plain xs)"

fun loop_ops :: "val \<Rightarrow> val \<Rightarrow> val \<Rightarrow> ty list \<Rightarrow> nat \<Rightarrow> val list \<Rightarrow> nat \<Rightarrow> op list" where
  "loop_ops struct_ptr array_ptr zero argument_types i [] n = []"
| "loop_ops struct_ptr array_ptr zero argument_types i (a # as) n =
     [ConstantOp (Val n llvm_int32_type) (int i),
      GEPOp (Val (n + 1) (LLVMPointerTy (argument_types ! i))) struct_ptr
        [zero, Val n llvm_int32_type],
      StoreOp a (Val (n + 1) (LLVMPointerTy (argument_types ! i))),
      GEPOp (Val (n + 2) llvm_pointer_pointer_type) array_ptr [Val n llvm_int32_type],
      BitcastOp (Val (n + 3) llvm_pointer_type)
        (Val (n + 1) (LLVMPointerTy (argument_types ! i))),
      StoreOp (Val (n + 3) llvm_pointer_type) (Val (n + 2) llvm_pointer_pointer_type)]
     @ loop_ops struct_ptr array_ptr zero argument_types (Suc i) as (n + 4)"

definition params_ops :: "val list \<Rightarrow> nat \<Rightarrow> op list" where
  "params_ops arguments n =
     (let struct_ptr = Val (n + 1) (LLVMPointerTy (LLVMStructTy (map getType arguments)));
          array_ptr = Val (n + 3) llvm_pointer_pointer_type;
          zero = Val (n + 4) llvm_int32_type
      in [ConstantOp (Val n llvm_int32_type) 1,
          AllocaOp struct_ptr (Val n llvm_int32_type),
          ConstantOp (Val (n + 2) llvm_int32_type) (int (length arguments)),
          AllocaOp array_ptr (Val (n + 2) llvm_int32_type),
          ConstantOp zero 0]
         @ loop_ops struct_ptr array_ptr zero (map getType arguments) 0 arguments (n + 5))"

definition after_globals :: "launch \<Rightarrow> top_op \<Rightarrow> string \<Rightarrow> rewriter \<Rightarrow> rewriter" where
  "after_globals l kernel_module binary_attr r =
     snd (createGlobalString
            (getName kernel_module @ ''_'' @ getKernelName l @ ''_kernel_name'')
            (getKernelName l @ [CHR 0x00]) Internal
            (snd (createGlobalString (getName kernel_module @ ''_blob'') binary_attr
                    Internal r)))"

definition entry_point_decl :: "pattern \<Rightarrow> top_op list \<Rightarrow> top_op list" where
  "entry_point_decl p m =
     (case lookupNearestSymbolFrom_LLVMFuncOp m kTfWrapperLibaryLaunchHelperName of
        Some f \<Rightarrow> []
      | None \<Rightarrow> [LLVMFuncOp kTfWrapperLibaryLaunchHelperName (entry_point_type p) [] []])"

definition launch_call :: "launch \<Rightarrow> val \<Rightarrow> nat \<Rightarrow> val list \<Rightarrow> val \<Rightarrow> op" where
  "launch_call l context_arg n operands kernel_params =
     CallOp llvm_void_type kTfWrapperLibaryLaunchHelperName
       [context_arg, Val (n + 2) llvm_pointer_type, Val (n + 5) llvm_pointer_type,
        adaptor_operand l operands 0, adaptor_operand l operands 1,
        adaptor_operand l operands 2, adaptor_operand l operands 3,
        adaptor_operand l operands 4, adaptor_operand l operands 5,
        kernel_params]"

fun shape :: "top_op \<Rightarrow> top_op" where
  "shape (LLVMFuncOp n t args ops) = LLVMFuncOp n t args []"
| "shape t = t"

definition accepts_in :: "pattern \<Rightarrow> top_op list \<Rightarrow> launch \<Rightarrow> bool" where
  "accepts_in p m l =
     (asyncDependencies l = [] \<and> asyncToken l = None \<and>
      (case lookupNearestSymbolFrom_GPUModuleOp m (getKernelModuleName l) of
         None \<Rightarrow> False
       | Some km \<Rightarrow> getAttrOfType_StringAttr km (gpu_binary_annotation p) \<noteq> None))"

definition frame :: "rewriter \<Rightarrow> top_op list" where
  "frame r =
     tops_before r @ [LLVMFuncOp (parent_name r) (parent_type r) (parent_args r) []]
     @ tops_after r"

definition settled :: "top_op list \<Rightarrow> top_op list \<Rightarrow> bool" where
  "settled m0 m =
     (\<exists>new. list_all (\<lambda>t. \<not> isGPUModuleOp t) new \<and> map shape m = new @ map shape m0)"

definition blob_global :: "top_op \<Rightarrow> string \<Rightarrow> top_op" where
  "blob_global km blob =
     GlobalOp (getName km @ ''_blob'') (LLVMArrayTy llvm_int8_type (length blob)) True
       Internal blob"

definition kernel_name_global :: "top_op \<Rightarrow> launch \<Rightarrow> top_op" where
  "kernel_name_global km l =
     GlobalOp (getName km @ ''_'' @ getKernelName l @ ''_kernel_name'')
       (LLVMArrayTy llvm_int8_type (length (getKernelName l @ [CHR 0x00]))) True Internal
       (getKernelName l @ [CHR 0x00])"

definition global_ops :: "nat \<Rightarrow> string \<Rightarrow> string \<Rightarrow> op list" where
  "global_ops n name value =
     [AddressOfOp (Val n (LLVMPointerTy (LLVMArrayTy llvm_int8_type (length value)))) name,
      ConstantOp (Val (n + 1) llvm_int64_type) 0,
      GEPOp (Val (n + 2) llvm_pointer_type)
        (Val n (LLVMPointerTy (LLVMArrayTy llvm_int8_type (length value))))
        [Val (n + 1) llvm_int64_type, Val (n + 1) llvm_int64_type]]"

definition has_entry_point :: "top_op list \<Rightarrow> bool" where
  "has_entry_point m =
     (lookupNearestSymbolFrom_LLVMFuncOp m kTfWrapperLibaryLaunchHelperName \<noteq> None)"

definition start_block ::
  "top_op list \<Rightarrow> string \<Rightarrow> ty \<Rightarrow> val list \<Rightarrow> op list \<Rightarrow> top_op list \<Rightarrow> nat
     \<Rightarrow> diagnostic list \<Rightarrow> top_op list \<Rightarrow> rewriter" where
  "start_block front name fty args ops rest n ds u =
     \<lparr>tops_before = front, parent_name = name, parent_type = fty, parent_args = args,
      ops_before = [], ops_after = ops, tops_after = rest, next_value = n,
      diagnostics = ds, untracked = u\<rparr>"

definition launch_free :: "op list \<Rightarrow> bool" where
  "launch_free ops = list_all (\<lambda>x. \<not> isLaunchFuncOp x) ops"

definition bodies_launch_free :: "top_op list \<Rightarrow> bool" where
  "bodies_launch_free m = list_all (\<lambda>t. launch_free (getBody t)) m"

text \<open>
  Reading emitted code: the operation that defines a value, and the global whose first
  byte a value addresses (a \<^verbatim>\<open>getelementptr\<close> on the \<^verbatim>\<open>addressof\<close> of the global).
\<close>

fun result_of :: "op \<Rightarrow> val option" where
  "result_of (ConstantOp r n) = Some r"
| "result_of (AllocaOp r c) = Some r"
| "result_of (GEPOp r b idx) = Some r"
| "result_of (BitcastOp r a) = Some r"
| "result_of (ExtractValueOp r a pos) = Some r"
| "result_of (AddressOfOp r n) = Some r"
| "result_of x = None"

definition defining_op :: "op list \<Rightarrow> val \<Rightarrow> op option" where
  "defining_op ops v = find (\<lambda>x. result_of x = Some v) ops"

definition global_of :: "op list \<Rightarrow> val \<Rightarrow> string option" where
  "global_of ops v =
     (case defining_op ops v of
        Some (GEPOp r base idx) \<Rightarrow>
          (case defining_op ops base of
             Some (AddressOfOp g name) \<Rightarrow> Some name
           | _ \<Rightarrow> None)
      | _ \<Rightarrow> None)"

text \<open>
  The number of elements of a stack array: the constant that is the count operand of the
  \<^verbatim>\<open>alloca\<close> defining the value.
\<close>

definition array_length :: "op list \<Rightarrow> val \<Rightarrow> int option" where
  "array_length ops v =
     (case defining_op ops v of
        Some (AllocaOp r c) \<Rightarrow>
          (case defining_op ops c of
             Some (ConstantOp c' n) \<Rightarrow> Some n
           | _ \<Rightarrow> None)
      | _ \<Rightarrow> None)"

text \<open>The number of values one operand is promoted to, by its original type.\<close>

fun promoted_size :: "ty \<Rightarrow> nat" where
  "promoted_size (MemRefType rank) = 3 + 2 * rank"
| "promoted_size UnrankedMemRefType = 2"
| "promoted_size t = 1"

section \<open>Running the emitted code\<close>

text \<open>
  The contract of \<^verbatim>\<open>generateParamsArray\<close> is about what its code does when it runs. The
  operations it emits are given their meaning on a small machine: a register file that
  maps value identifiers to runtime values, and a memory of allocated blocks, addressed by
  block and slot. A struct of \<open>n\<close> fields takes \<open>n\<close> slots, any other element one slot;
  \<^verbatim>\<open>alloca\<close> allocates a new block of count times the slots of the element type;
  \<^verbatim>\<open>getelementptr\<close> with one index steps over elements, with two indices on a pointer to
  a struct it selects a field; \<^verbatim>\<open>bitcast\<close> keeps the address; \<^verbatim>\<open>store\<close> needs an address
  inside an allocated block. An operation without a rule, an unbound register or an
  address out of bounds stops the run (\<open>None\<close>).
\<close>

datatype rv = IntV int | PtrV nat nat | AggV "rv list"

record machine =
  regs :: "nat \<Rightarrow> rv option"
  blocks :: "nat list"
  mem :: "nat \<times> nat \<Rightarrow> rv option"

definition reg_int :: "machine \<Rightarrow> val \<Rightarrow> int option" where
  "reg_int s v = (case regs s (vid v) of Some (IntV i) \<Rightarrow> Some i | _ \<Rightarrow> None)"

definition reg_ptr :: "machine \<Rightarrow> val \<Rightarrow> (nat \<times> nat) option" where
  "reg_ptr s v = (case regs s (vid v) of Some (PtrV b off) \<Rightarrow> Some (b, off) | _ \<Rightarrow> None)"

definition set_reg :: "val \<Rightarrow> rv \<Rightarrow> machine \<Rightarrow> machine" where
  "set_reg v x s = s\<lparr>regs := (regs s)(vid v \<mapsto> x)\<rparr>"

fun slots_of :: "ty \<Rightarrow> nat" where
  "slots_of (LLVMStructTy ts) = length ts"
| "slots_of t = 1"

fun pointee :: "ty \<Rightarrow> ty option" where
  "pointee (LLVMPointerTy t) = Some t"
| "pointee t = None"

fun gep_offset :: "ty \<Rightarrow> int list \<Rightarrow> nat option" where
  "gep_offset t [i] = (if i < 0 then None else Some (nat i * slots_of t))"
| "gep_offset (LLVMStructTy ts) [j, i] =
     (if j < 0 \<or> i < 0 \<or> length ts \<le> nat i then None
      else Some (nat j * length ts + nat i))"
| "gep_offset t ks = None"

fun extract_value :: "rv \<Rightarrow> nat list \<Rightarrow> rv option" where
  "extract_value x [] = Some x"
| "extract_value (AggV xs) (k # pos) = (if k < length xs then extract_value (xs ! k) pos else None)"
| "extract_value x (k # pos) = None"

fun exec_op :: "op \<Rightarrow> machine \<Rightarrow> machine option" where
  "exec_op (ConstantOp r n) s = Some (set_reg r (IntV n) s)"
| "exec_op (AllocaOp r c) s =
     (case (pointee (getType r), reg_int s c) of
        (Some t, Some k) \<Rightarrow>
          if k < 0 then None
          else Some (set_reg r (PtrV (length (blocks s)) 0)
                       (s\<lparr>blocks := blocks s @ [nat k * slots_of t]\<rparr>))
      | _ \<Rightarrow> None)"
| "exec_op (GEPOp r base idx) s =
     (case (pointee (getType base), reg_ptr s base, those (map (reg_int s) idx)) of
        (Some t, Some (b, off), Some ks) \<Rightarrow>
          (case gep_offset t ks of
             Some d \<Rightarrow> Some (set_reg r (PtrV b (off + d)) s)
           | None \<Rightarrow> None)
      | _ \<Rightarrow> None)"
| "exec_op (StoreOp v a) s =
     (case (regs s (vid v), reg_ptr s a) of
        (Some x, Some (b, off)) \<Rightarrow>
          if b < length (blocks s) \<and> off < blocks s ! b
          then Some (s\<lparr>mem := (mem s)((b, off) \<mapsto> x)\<rparr>)
          else None
      | _ \<Rightarrow> None)"
| "exec_op (BitcastOp r a) s =
     (case regs s (vid a) of Some x \<Rightarrow> Some (set_reg r x s) | None \<Rightarrow> None)"
| "exec_op (ExtractValueOp r a pos) s =
     (case regs s (vid a) of
        Some x \<Rightarrow> (case extract_value x pos of Some y \<Rightarrow> Some (set_reg r y s) | None \<Rightarrow> None)
      | None \<Rightarrow> None)"
| "exec_op x s = None"

fun run :: "op list \<Rightarrow> machine \<Rightarrow> machine option" where
  "run [] s = Some s"
| "run (x # xs) s = (case exec_op x s of None \<Rightarrow> None | Some s' \<Rightarrow> run xs s')"


section \<open>Counting symbols\<close>

fun launches_of :: "op list \<Rightarrow> launch list" where
  "launches_of [] = []"
| "launches_of (LaunchFuncOp l # xs) = l # launches_of xs"
| "launches_of (x # xs) = launches_of xs"

definition launches :: "top_op list \<Rightarrow> launch list" where
  "launches m = concat (map (\<lambda>t. launches_of (getBody t)) m)"

definition globals_named :: "string \<Rightarrow> top_op list \<Rightarrow> nat" where
  "globals_named n m = length (filter (isGlobalNamed n) m)"

definition entry_point_decls :: "top_op list \<Rightarrow> nat" where
  "entry_point_decls m = length (filter (isFuncNamed kTfWrapperLibaryLaunchHelperName) m)"

definition launches_on :: "string \<Rightarrow> launch list \<Rightarrow> nat" where
  "launches_on k ls = length (filter (\<lambda>l. getKernelModuleName l = k) ls)"

text \<open>
  The entry point is either declared once and found by the symbol lookup, or not declared
  and not found.
\<close>

definition entry_point_ok :: "top_op list \<Rightarrow> bool" where
  "entry_point_ok m =
     (if has_entry_point m then entry_point_decls m = 1 else entry_point_decls m = 0)"

text \<open>What a pass run leaves, by symbol name; nothing when the run was aborted.\<close>

definition pass_symbols :: "string + pass_state \<Rightarrow> (bool \<times> string list) option" where
  "pass_symbols res =
     (case res of
        Inl e \<Rightarrow> None
      | Inr st \<Rightarrow> Some (pass_failed st, map getName (module_after st)))"

section \<open>Example modules\<close>

text \<open>
  A module with the device module \<open>K\<close> (entry point \<open>kern\<close>, one-byte blob under the key
  \<open>bin\<close>) and one function whose first argument is the context. The launch has the
  dimensions \<open>%1\<close> to \<open>%6\<close> and two kernel operands, an index and a memref of rank one.
\<close>

definition ex_pattern :: pattern where
  "ex_pattern = \<lparr>gpu_binary_annotation = ''bin'', pointer_bitwidth = 64\<rparr>"

definition ex_descriptor :: "nat \<Rightarrow> ty" where
  "ex_descriptor rank =
     LLVMStructTy [LLVMPointerTy (LLVMIntTy 32), LLVMPointerTy (LLVMIntTy 32), LLVMIntTy 64,
                   LLVMArrayTy (LLVMIntTy 64) rank, LLVMArrayTy (LLVMIntTy 64) rank]"

definition ex_remap :: "val \<Rightarrow> val" where
  "ex_remap v =
     (case getType v of
        IndexType \<Rightarrow> Val (vid v) (LLVMIntTy 64)
      | MemRefType rank \<Rightarrow> Val (vid v) (ex_descriptor rank)
      | _ \<Rightarrow> v)"

definition ex_launch :: launch where
  "ex_launch =
     \<lparr>asyncDependencies = [], asyncToken = None,
      getKernelModuleName = ''K'', getKernelName = ''kern'',
      gridSizeX = Val 1 IndexType, gridSizeY = Val 2 IndexType, gridSizeZ = Val 3 IndexType,
      blockSizeX = Val 4 IndexType, blockSizeY = Val 5 IndexType,
      blockSizeZ = Val 6 IndexType,
      kernelOperands = [Val 7 IndexType, Val 8 (MemRefType 1)]\<rparr>"

definition ex_async_launch :: launch where
  "ex_async_launch = ex_launch\<lparr>asyncToken := Some (Val 9 AsyncTokenType)\<rparr>"

definition ex_gpu_module :: top_op where
  "ex_gpu_module = GPUModuleOp ''K'' [(''bin'', StringAttr [CHR 0xAB])]"

definition ex_func :: "op list \<Rightarrow> top_op" where
  "ex_func ops =
     LLVMFuncOp ''f'' (LLVMFunctionTy LLVMVoidTy [llvm_pointer_type])
       [Val 0 llvm_pointer_type] ops"

definition ex_module :: "top_op list" where
  "ex_module = [ex_gpu_module, ex_func [LaunchFuncOp ex_launch]]"

definition ex_rewriter :: "top_op list \<Rightarrow> rewriter" where
  "ex_rewriter tops =
     \<lparr>tops_before = tops, parent_name = ''f'',
      parent_type = LLVMFunctionTy LLVMVoidTy [llvm_pointer_type],
      parent_args = [Val 0 llvm_pointer_type], ops_before = [], ops_after = [],
      tops_after = [], next_value = 10, diagnostics = [], untracked = []\<rparr>"

text \<open>
  A launch with three scalar kernel operands, and a machine in which they hold the values
  70, 80 and 90.
\<close>

definition ex_scalar_launch :: launch where
  "ex_scalar_launch =
     ex_launch\<lparr>kernelOperands := [Val 7 IndexType, Val 8 IndexType, Val 9 IndexType]\<rparr>"


text \<open>A module whose function launches the kernel of \<open>K\<close> twice.\<close>

definition ex_two_launches :: "top_op list" where
  "ex_two_launches =
     [ex_gpu_module, ex_func [LaunchFuncOp ex_scalar_launch, LaunchFuncOp ex_scalar_launch]]"

text \<open>
  A module whose function launches the kernel of \<open>K\<close> synchronously and then
  asynchronously, and a launch without kernel operands.
\<close>

definition ex_sync_then_async :: "top_op list" where
  "ex_sync_then_async =
     [ex_gpu_module, ex_func [LaunchFuncOp ex_scalar_launch, LaunchFuncOp ex_async_launch]]"


section \<open>Properties of the rewriter and of the driver\<close>

lemma grows_grows:
  "grows (grows b n1 xs j) n2 ys k = grows b (n2 @ n1) (xs @ ys) (j + k)"
  by (simp add: grows_def add.assoc)

lemma grows_nothing: "grows b [] [] 0 = b"
  by (simp add: grows_def)

lemma grows_fields:
  "tops_before (grows b new xs k) = new @ tops_before b"
  "tops_after (grows b new xs k) = tops_after b"
  "ops_after (grows b new xs k) = ops_after b"
  "parent_name (grows b new xs k) = parent_name b"
  "parent_type (grows b new xs k) = parent_type b"
  "parent_args (grows b new xs k) = parent_args b"
  "diagnostics (grows b new xs k) = diagnostics b"
  "ops_before (grows b new xs k) = ops_before b @ xs"
  "next_value (grows b new xs k) = next_value b + k"
  "untracked (grows b new xs k) = filter isGlobalOp new @ untracked b"
  by (simp_all add: grows_def)

lemma create_grows:
  "create mk t r = (Val (next_value r) t, grows r [] [mk (Val (next_value r) t)] 1)"
  by (simp add: create_def Let_def grows_def)

lemma insert_op_grows: "insert_op x r = grows r [] [x] 0"
  by (simp add: insert_op_def grows_def)

lemma insert_at_module_start_grows:
  "\<not> isGlobalOp t \<Longrightarrow> insert_at_module_start t r = grows r [t] [] 0"
  by (simp add: insert_at_module_start_def grows_def)

lemma moduleBuilder_create_grows:
  "moduleBuilder_create (GlobalOp n t c l v) r = grows r [GlobalOp n t c l v] [] 0"
  by (simp add: moduleBuilder_create_def grows_def)

lemma extends_refl: "extends b b"
  unfolding extends_def using grows_nothing [of b] by (metis list.pred_inject(1))

lemma extends_trans: "extends a b \<Longrightarrow> extends b c \<Longrightarrow> extends a c"
  unfolding extends_def by (metis grows_grows append_Nil list_all_append)

lemma extends_grows: "list_all plain xs \<Longrightarrow> extends b (grows b [] xs k)"
  unfolding extends_def by blast

lemma extract_all_extends: "extends b (snd (extract_all d ps b))"
proof (induction ps arbitrary: b)
  case Nil
  show ?case by (simp add: extends_refl)
next
  case (Cons q ps)
  obtain pos t where q: "q = (pos, t)" by (cases q)
  let ?b1 = "grows b [] [ExtractValueOp (Val (next_value b) t) d pos] 1"
  have "extends b ?b1" by (rule extends_grows) (simp add: plain_def)
  moreover have "extends ?b1 (snd (extract_all d ps ?b1))" by (rule Cons.IH)
  ultimately show ?case
    by (simp add: q create_grows split_def Let_def) (rule extends_trans)
qed

lemma length_extract_all: "length (fst (extract_all d ps b)) = length ps"
  by (induction ps arbitrary: b) (auto simp: create_grows split_def Let_def)

lemma promoteOperands_extends: "extends b (snd (promoteOperands xs ys b))"
proof (induction xs ys b rule: promoteOperands.induct)
  case (1 operand opOperands llvmOperand operands b)
  show ?case
  proof (cases "getType operand")
    case UnrankedMemRefType
    let ?b1 = "snd (UnrankedMemRefDescriptor_unpack llvmOperand b)"
    have "extends b ?b1"
      by (simp add: UnrankedMemRefDescriptor_unpack_def Let_def extract_all_extends
            del: extract_all.simps)
    moreover have "extends ?b1 (snd (promoteOperands opOperands operands ?b1))"
      using "1.IH" UnrankedMemRefType by (metis prod.collapse)
    ultimately show ?thesis
      using UnrankedMemRefType by (simp add: split_def Let_def) (rule extends_trans)
  next
    case (MemRefType rank)
    let ?b1 = "snd (MemRefDescriptor_unpack llvmOperand rank b)"
    have "extends b ?b1"
      by (simp add: MemRefDescriptor_unpack_def Let_def extract_all_extends
            del: extract_all.simps)
    moreover have "extends ?b1 (snd (promoteOperands opOperands operands ?b1))"
      using "1.IH" MemRefType by (metis prod.collapse)
    ultimately show ?thesis
      using MemRefType by (simp add: split_def Let_def) (rule extends_trans)
  qed (use "1.IH" in \<open>simp_all add: split_def Let_def\<close>)
qed (simp_all add: extends_refl)

lemma params_loop_grows:
  "params_loop sp ap z tys i as b =
     grows b [] (loop_ops sp ap z tys i as (next_value b)) (4 * length as)"
proof (induction as arbitrary: i b)
  case Nil
  show ?case by (simp add: grows_nothing)
next
  case (Cons a as)
  show ?case
    by (simp add: create_grows insert_op_grows grows_grows grows_fields Cons.IH Let_def
        del: loop_ops.simps) (simp add: numeral_eq_Suc)
qed

lemma generateParamsArray_grows:
  assumes "promoteOperands (take_back (getNumKernelOperands l) (getOperands l))
             (take_back (getNumKernelOperands l) operands) b = (arguments, b0)"
    and "arguments \<noteq> []" and "list_all isLLVMType (map getType arguments)"
  shows "generateParamsArray l operands b =
           Inr (Val (next_value b0 + 3) llvm_pointer_pointer_type,
                grows b0 [] (params_ops arguments (next_value b0))
                  (5 + 4 * length arguments))"
proof -
  from assms(2) have "createStructTy (map getType arguments)
                      = Inr (LLVMStructTy (map getType arguments))"
    by (cases arguments) simp_all
  with assms(1,3) show ?thesis
    by (simp add: generateParamsArray_def Let_def create_grows params_loop_grows grows_grows
        grows_fields params_ops_def numeral_eq_Suc del: createStructTy.simps)
qed

lemma generateParamsArray_Inr:
  assumes "promoteOperands (take_back (getNumKernelOperands l) (getOperands l))
             (take_back (getNumKernelOperands l) operands) b = (arguments, b0)"
    and "generateParamsArray l operands b = Inr res"
  shows "arguments \<noteq> [] \<and> list_all isLLVMType (map getType arguments)"
  using assms
  by (cases arguments) (auto simp: generateParamsArray_def Let_def split: if_splits)


lemma createGlobalString_grows:
  "createGlobalString name value lnk r =
     (Val (next_value r + 2) llvm_pointer_type,
      grows r [GlobalOp name (LLVMArrayTy llvm_int8_type (length value)) True lnk value]
        [AddressOfOp (Val (next_value r)
                       (LLVMPointerTy (LLVMArrayTy llvm_int8_type (length value)))) name,
         ConstantOp (Val (next_value r + 1) llvm_int64_type) 0,
         GEPOp (Val (next_value r + 2) llvm_pointer_type)
           (Val (next_value r)
              (LLVMPointerTy (LLVMArrayTy llvm_int8_type (length value))))
           [Val (next_value r + 1) llvm_int64_type, Val (next_value r + 1) llvm_int64_type]]
        3)"
  by (simp add: createGlobalString_def Let_def create_grows moduleBuilder_create_grows
      grows_grows grows_fields numeral_eq_Suc)

lemma matchAndRewrite_success_eq:
  assumes sync: "asyncDependencies l = []" "asyncToken l = None"
    and km: "lookupNearestSymbolFrom_GPUModuleOp (module_view l r) (getKernelModuleName l)
               = Some km"
    and blob: "getAttrOfType_StringAttr km (gpu_binary_annotation p) = Some blob"
    and len: "kNumConfigOperands \<le> length operands"
    and args: "parent_args r = context_arg # other_args"
    and prom: "promoteOperands (take_back (getNumKernelOperands l) (getOperands l))
                 (take_back (getNumKernelOperands l) operands) (after_globals l km blob r)
               = (arguments, b0)"
    and ne: "arguments \<noteq> []" and ll: "list_all isLLVMType (map getType arguments)"
  shows "matchAndRewrite p l operands r =
           Inr (success,
                grows b0
                  (entry_point_decl p
                     (module_view l
                        (grows b0 [] (params_ops arguments (next_value b0))
                           (5 + 4 * length arguments))))
                  (params_ops arguments (next_value b0)
                   @ [launch_call l context_arg (next_value r) operands
                        (Val (next_value b0 + 3) llvm_pointer_pointer_type)])
                  (5 + 4 * length arguments))"
proof -
  have pa: "parent_args (after_globals l km blob r) = parent_args r"
    by (simp add: after_globals_def createGlobalString_grows grows_fields)
  have fst1: "fst (createGlobalString (getName km @ ''_blob'') blob Internal r)
              = Val (next_value r + 2) llvm_pointer_type"
    by (simp add: createGlobalString_grows)
  have fst2: "fst (createGlobalString
                     (getName km @ ''_'' @ getKernelName l @ ''_kernel_name'')
                     (getKernelName l @ [CHR 0x00]) Internal
                     (snd (createGlobalString (getName km @ ''_blob'') blob Internal r)))
              = Val (next_value r + 5) llvm_pointer_type"
    by (simp add: createGlobalString_grows grows_fields)
  have gen: "generateParamsArray l operands (after_globals l km blob r) =
           Inr (Val (next_value b0 + 3) llvm_pointer_pointer_type,
                grows b0 [] (params_ops arguments (next_value b0))
                  (5 + 4 * length arguments))"
    by (rule generateParamsArray_grows [OF prom ne ll])
  show ?thesis
    unfolding matchAndRewrite_def
    using sync km blob len args pa [unfolded after_globals_def]
      gen [unfolded after_globals_def] fst1 fst2
    by (simp add: split_def Let_def
        entry_point_decl_def launch_call_def insert_op_grows insert_at_module_start_grows
        grows_grows grows_fields
        split: option.split)
qed

lemma find_append:
  "find P (xs @ ys) = (case find P xs of None \<Rightarrow> find P ys | Some x \<Rightarrow> Some x)"
  by (induction xs) simp_all

lemma getName_shape: "getName (shape t) = getName t"
  by (cases t) simp_all

lemma lookupSymbolIn_shape:
  "lookupSymbolIn (map shape m) n = map_option shape (lookupSymbolIn m n)"
  by (induction m) (simp_all add: lookupSymbolIn_def getName_shape)

lemma lookup_GPUModuleOp_shape:
  "lookupNearestSymbolFrom_GPUModuleOp (map shape m) n
   = lookupNearestSymbolFrom_GPUModuleOp m n"
proof (cases "lookupSymbolIn m n")
  case None
  then show ?thesis
    by (simp add: lookupNearestSymbolFrom_GPUModuleOp_def lookupSymbolIn_shape)
next
  case (Some t)
  then show ?thesis
    by (cases t) (simp_all add: lookupNearestSymbolFrom_GPUModuleOp_def lookupSymbolIn_shape)
qed

lemma lookup_GPUModuleOp_append:
  assumes "list_all (\<lambda>t. \<not> isGPUModuleOp t) new"
    and "lookupNearestSymbolFrom_GPUModuleOp (new @ m) n = Some km"
  shows "lookupNearestSymbolFrom_GPUModuleOp m n = Some km"
proof (cases "find (\<lambda>t. getName t = n) new")
  case None
  with assms(2) show ?thesis
    by (simp add: lookupNearestSymbolFrom_GPUModuleOp_def lookupSymbolIn_def find_append)
next
  case (Some t)
  then have "t \<in> set new"
    by (auto simp: find_Some_iff)
  with assms(1) have "\<not> isGPUModuleOp t"
    by (simp add: list_all_iff)
  with Some assms(2) show ?thesis
    by (cases t) (auto simp: lookupNearestSymbolFrom_GPUModuleOp_def lookupSymbolIn_def find_append)
qed

lemma accepts_in_shape: "accepts_in p (map shape m) l = accepts_in p m l"
  by (simp add: accepts_in_def lookup_GPUModuleOp_shape)

lemma accepts_in_append:
  assumes "list_all (\<lambda>t. \<not> isGPUModuleOp t) new" and "accepts_in p (new @ m) l"
  shows "accepts_in p m l"
proof -
  from assms(2) obtain km where
    km: "lookupNearestSymbolFrom_GPUModuleOp (new @ m) (getKernelModuleName l) = Some km"
    by (auto simp: accepts_in_def split: option.splits)
  from lookup_GPUModuleOp_append [OF assms(1) km] km assms(2) show ?thesis
    by (simp add: accepts_in_def)
qed

lemma accepts_in_settled:
  assumes "settled m0 m" and "accepts_in p m l"
  shows "accepts_in p m0 l"
proof -
  from assms(1) obtain new where
    new: "list_all (\<lambda>t. \<not> isGPUModuleOp t) new" "map shape m = new @ map shape m0"
    by (auto simp: settled_def)
  from assms(2) have "accepts_in p (new @ map shape m0) l"
    using accepts_in_shape [of p m l] new(2) by simp
  then have "accepts_in p (map shape m0) l"
    by (rule accepts_in_append [OF new(1)])
  then show ?thesis by (simp add: accepts_in_shape)
qed

lemma map_shape_module_view: "map shape (module_view l r) = map shape (frame r)"
  by (simp add: module_view_def frame_def)

lemma settled_refl: "settled m m"
  unfolding settled_def by (rule exI [of _ "[]"]) simp

lemma settled_cons:
  assumes "settled m0 m" and "list_all (\<lambda>t. \<not> isGPUModuleOp t) new"
  shows "settled m0 (new @ m)"
proof -
  from assms(1) obtain old where
    old: "list_all (\<lambda>t. \<not> isGPUModuleOp t) old" "map shape m = old @ map shape m0"
    by (auto simp: settled_def)
  have "\<not> isGPUModuleOp (shape t) \<longleftrightarrow> \<not> isGPUModuleOp t" for t
    by (cases t) simp_all
  with assms(2) have "list_all (\<lambda>t. \<not> isGPUModuleOp t) (map shape new)"
    by (simp add: list_all_iff)
  with old show ?thesis
    unfolding settled_def
    by (intro exI [of _ "map shape new @ old"]) simp
qed

lemma settled_shape: "map shape m = map shape m' \<Longrightarrow> settled m0 m \<Longrightarrow> settled m0 m'"
  by (simp add: settled_def)

lemma matchAndRewrite_accepts:
  assumes "matchAndRewrite p l operands r = Inr (success, r')"
  shows "accepts_in p (module_view l r) l"
  using assms
  by (auto simp: matchAndRewrite_def accepts_in_def notifyMatchFailure_def
      split: if_splits option.splits)

lemma matchAndRewrite_successE:
  assumes "matchAndRewrite p l operands r = Inr (success, r')"
  obtains km blob context_arg other_args where
    "asyncDependencies l = []" and "asyncToken l = None"
    and "lookupNearestSymbolFrom_GPUModuleOp (module_view l r) (getKernelModuleName l)
         = Some km"
    and "getAttrOfType_StringAttr km (gpu_binary_annotation p) = Some blob"
    and "kNumConfigOperands \<le> length operands"
    and "parent_args r = context_arg # other_args"
    and "\<exists>res. generateParamsArray l operands (after_globals l km blob r) = Inr res"
proof -
  from assms have sync: "asyncDependencies l = []" "asyncToken l = None"
    by (auto simp: matchAndRewrite_def notifyMatchFailure_def split: if_splits)
  from assms sync obtain km where
    km: "lookupNearestSymbolFrom_GPUModuleOp (module_view l r) (getKernelModuleName l)
         = Some km"
    by (auto simp: matchAndRewrite_def split: option.splits)
  from assms sync km obtain blob where
    blob: "getAttrOfType_StringAttr km (gpu_binary_annotation p) = Some blob"
    by (auto simp: matchAndRewrite_def split: option.splits)
  from assms sync km blob have len: "kNumConfigOperands \<le> length operands"
    by (auto simp: matchAndRewrite_def split_def Let_def split: if_splits)
  from assms sync km blob len obtain context_arg other_args where
    args: "parent_args r = context_arg # other_args"
    by (cases "parent_args r")
       (auto simp: matchAndRewrite_def split_def Let_def createGlobalString_grows grows_fields)
  have "\<exists>res. generateParamsArray l operands (after_globals l km blob r) = Inr res"
    unfolding after_globals_def
    using assms sync km blob len args
    by (auto simp: matchAndRewrite_def split_def Let_def createGlobalString_grows
        grows_fields split: sum.splits)
  with sync km blob len args show ?thesis
    by (rule that)
qed

lemma after_globals_grows:
  "after_globals l km blob r =
     grows r [kernel_name_global km l, blob_global km blob]
       (global_ops (next_value r) (getName km @ ''_blob'') blob
        @ global_ops (next_value r + 3)
            (getName km @ ''_'' @ getKernelName l @ ''_kernel_name'')
            (getKernelName l @ [CHR 0x00])) 6"
  by (simp add: after_globals_def createGlobalString_grows grows_grows grows_fields
      kernel_name_global_def blob_global_def global_ops_def add.assoc)

lemma entry_point_decl_if:
  "entry_point_decl p m =
     (if has_entry_point m then []
      else [LLVMFuncOp kTfWrapperLibaryLaunchHelperName (entry_point_type p) [] []])"
  by (simp add: entry_point_decl_def has_entry_point_def split: option.split)

lemma has_entry_point_shape: "has_entry_point (map shape m) = has_entry_point m"
proof (cases "lookupSymbolIn m kTfWrapperLibaryLaunchHelperName")
  case None
  then show ?thesis
    by (simp add: has_entry_point_def lookupNearestSymbolFrom_LLVMFuncOp_def
        lookupSymbolIn_shape)
next
  case (Some t)
  then show ?thesis
    by (cases t)
       (simp_all add: has_entry_point_def lookupNearestSymbolFrom_LLVMFuncOp_def
         lookupSymbolIn_shape)
qed

lemma has_entry_point_Cons:
  "has_entry_point (t # m) =
     (if getName t = kTfWrapperLibaryLaunchHelperName
      then isFuncNamed kTfWrapperLibaryLaunchHelperName t else has_entry_point m)"
  by (cases t)
     (simp_all add: has_entry_point_def lookupNearestSymbolFrom_LLVMFuncOp_def
       lookupSymbolIn_def)

lemma blob_name_neq: "n @ ''_blob'' \<noteq> kTfWrapperLibaryLaunchHelperName"
proof
  assume "n @ ''_blob'' = kTfWrapperLibaryLaunchHelperName"
  then have "last (n @ ''_blob'') = last kTfWrapperLibaryLaunchHelperName"
    by simp
  then show False
    by (simp add: kTfWrapperLibaryLaunchHelperName_def)
qed

lemma kernel_name_name_neq:
  "n @ ''_'' @ k @ ''_kernel_name'' \<noteq> kTfWrapperLibaryLaunchHelperName"
proof
  assume "n @ ''_'' @ k @ ''_kernel_name'' = kTfWrapperLibaryLaunchHelperName"
  then have "last ((n @ ''_'' @ k) @ ''_kernel_name'')
             = last kTfWrapperLibaryLaunchHelperName"
    by simp
  then show False
    unfolding last_append by (simp add: kTfWrapperLibaryLaunchHelperName_def)
qed

lemma has_entry_point_globals:
  "has_entry_point (kernel_name_global km l # blob_global km blob # m) = has_entry_point m"
  using blob_name_neq [of "getName km"] kernel_name_name_neq [of "getName km" "getKernelName l"]
  by (simp add: has_entry_point_Cons kernel_name_global_def blob_global_def)

lemma frame_grows: "frame (grows r new xs k) = new @ frame r"
  by (simp add: frame_def grows_fields)

lemma has_entry_point_module_view:
  "has_entry_point (module_view l r) = has_entry_point (frame r)"
  using has_entry_point_shape [of "module_view l r"] has_entry_point_shape [of "frame r"]
  by (simp add: map_shape_module_view)

lemma matchAndRewrite_successD:
  assumes "matchAndRewrite p l operands r = Inr (success, r')"
  obtains km blob context_arg other_args arguments xs k where
    "asyncDependencies l = []" and "asyncToken l = None"
    and "lookupNearestSymbolFrom_GPUModuleOp (module_view l r) (getKernelModuleName l)
         = Some km"
    and "getAttrOfType_StringAttr km (gpu_binary_annotation p) = Some blob"
    and "kNumConfigOperands \<le> length operands"
    and "parent_args r = context_arg # other_args"
    and "promoteOperands (take_back (getNumKernelOperands l) (getOperands l))
           (take_back (getNumKernelOperands l) operands) (after_globals l km blob r)
         = (arguments, grows (after_globals l km blob r) [] xs k)"
    and "list_all plain xs"
    and "r' = grows r
                (entry_point_decl p (frame r)
                 @ [kernel_name_global km l, blob_global km blob])
                (global_ops (next_value r) (getName km @ ''_blob'') blob
                 @ global_ops (next_value r + 3)
                     (getName km @ ''_'' @ getKernelName l @ ''_kernel_name'')
                     (getKernelName l @ [CHR 0x00])
                 @ xs
                 @ params_ops arguments (next_value r + 6 + k)
                 @ [launch_call l context_arg (next_value r) operands
                      (Val (next_value r + 6 + k + 3) llvm_pointer_pointer_type)])
                (6 + k + (5 + 4 * length arguments))"
    and "arguments \<noteq> []" and "list_all isLLVMType (map getType arguments)"
proof -
  from assms obtain km blob context_arg other_args where
    c: "asyncDependencies l = []" "asyncToken l = None"
       "lookupNearestSymbolFrom_GPUModuleOp (module_view l r) (getKernelModuleName l)
        = Some km"
       "getAttrOfType_StringAttr km (gpu_binary_annotation p) = Some blob"
       "kNumConfigOperands \<le> length operands"
       "parent_args r = context_arg # other_args"
    and gen: "\<exists>res. generateParamsArray l operands (after_globals l km blob r) = Inr res"
    by (rule matchAndRewrite_successE)
  let ?r2 = "after_globals l km blob r"
  let ?pr = "promoteOperands (take_back (getNumKernelOperands l) (getOperands l))
               (take_back (getNumKernelOperands l) operands) ?r2"
  obtain arguments b0 where pr: "?pr = (arguments, b0)"
    by (cases ?pr)
  from gen generateParamsArray_Inr [OF pr] have
    ne: "arguments \<noteq> []" and ll: "list_all isLLVMType (map getType arguments)"
    by auto
  have "extends ?r2 (snd ?pr)"
    by (rule promoteOperands_extends)
  with pr obtain xs k where b0: "b0 = grows ?r2 [] xs k" and plain: "list_all plain xs"
    by (auto simp: extends_def)
  have nv: "next_value b0 = next_value r + 6 + k"
    by (simp add: b0 after_globals_grows grows_fields)
  have fr: "frame (grows b0 [] (params_ops arguments (next_value b0))
                    (5 + 4 * length arguments))
            = kernel_name_global km l # blob_global km blob # frame r"
    by (simp add: b0 after_globals_grows frame_grows)
  have decl: "entry_point_decl p
                (module_view l
                   (grows b0 [] (params_ops arguments (next_value b0))
                      (5 + 4 * length arguments)))
              = entry_point_decl p (frame r)"
    by (simp only: entry_point_decl_if has_entry_point_module_view fr
        has_entry_point_globals)
  have "matchAndRewrite p l operands r =
           Inr (success,
                grows b0
                  (entry_point_decl p
                     (module_view l
                        (grows b0 [] (params_ops arguments (next_value b0))
                           (5 + 4 * length arguments))))
                  (params_ops arguments (next_value b0)
                   @ [launch_call l context_arg (next_value r) operands
                        (Val (next_value b0 + 3) llvm_pointer_pointer_type)])
                  (5 + 4 * length arguments))"
    by (rule matchAndRewrite_success_eq [OF c pr ne ll])
  with assms have "r' = grows b0 (entry_point_decl p (frame r))
                  (params_ops arguments (next_value b0)
                   @ [launch_call l context_arg (next_value r) operands
                        (Val (next_value b0 + 3) llvm_pointer_pointer_type)])
                  (5 + 4 * length arguments)"
    by (simp add: decl)
  then have r': "r' = grows r
                (entry_point_decl p (frame r)
                 @ [kernel_name_global km l, blob_global km blob])
                (global_ops (next_value r) (getName km @ ''_blob'') blob
                 @ global_ops (next_value r + 3)
                     (getName km @ ''_'' @ getKernelName l @ ''_kernel_name'')
                     (getKernelName l @ [CHR 0x00])
                 @ xs
                 @ params_ops arguments (next_value r + 6 + k)
                 @ [launch_call l context_arg (next_value r) operands
                      (Val (next_value r + 6 + k + 3) llvm_pointer_pointer_type)])
                (6 + k + (5 + 4 * length arguments))"
    unfolding nv by (simp add: b0 after_globals_grows grows_grows)
  show ?thesis
    using c pr [unfolded b0] plain r' ne ll by (rule that)
qed

lemma convert_block_other:
  "\<not> isLaunchFuncOp x \<Longrightarrow>
   convert_block p remap (x # rest) r =
     convert_block p remap rest (r\<lparr>ops_before := ops_before r @ [x], ops_after := rest\<rparr>)"
  by (cases x) simp_all

lemma convert_block_launch:
  assumes "convert_block p remap (LaunchFuncOp l # rest) r = Inr (success, r')"
  obtains r1 where
    "matchAndRewrite p l (map remap (getOperands l)) (r\<lparr>ops_after := rest\<rparr>)
     = Inr (success, r1)"
    and "convert_block p remap rest r1 = Inr (success, r')"
  using assms
  by (auto split: sum.splits LogicalResult.splits)

lemma convert_block_success_induct [consumes 1, case_names Nil Other Launch]:
  assumes "convert_block p remap ops r = Inr (success, r')"
    and "P [] r'"
    and "\<And>x rest r. \<not> isLaunchFuncOp x \<Longrightarrow>
           P rest (r\<lparr>ops_before := ops_before r @ [x], ops_after := rest\<rparr>) \<Longrightarrow>
           P (x # rest) r"
    and "\<And>l rest r r1.
           matchAndRewrite p l (map remap (getOperands l)) (r\<lparr>ops_after := rest\<rparr>)
           = Inr (success, r1) \<Longrightarrow>
           P rest r1 \<Longrightarrow> P (LaunchFuncOp l # rest) r"
  shows "P ops r"
  using assms(1)
proof (induction ops arbitrary: r)
  case Nil
  then show ?case using assms(2) by simp
next
  case (Cons x rest)
  show ?case
  proof (cases "isLaunchFuncOp x")
    case False
    from Cons.prems have
      "convert_block p remap rest (r\<lparr>ops_before := ops_before r @ [x], ops_after := rest\<rparr>)
       = Inr (success, r')"
      unfolding convert_block_other [OF False] .
    then have "P rest (r\<lparr>ops_before := ops_before r @ [x], ops_after := rest\<rparr>)"
      by (rule Cons.IH)
    with False show ?thesis by (rule assms(3))
  next
    case True
    then obtain l where x: "x = LaunchFuncOp l"
      by (cases x) simp_all
    from Cons.prems [unfolded x] obtain r1 where
      r1: "matchAndRewrite p l (map remap (getOperands l)) (r\<lparr>ops_after := rest\<rparr>)
           = Inr (success, r1)"
          "convert_block p remap rest r1 = Inr (success, r')"
      by (rule convert_block_launch)
    from r1(2) have "P rest r1" by (rule Cons.IH)
    with r1(1) show ?thesis unfolding x by (rule assms(4))
  qed
qed

lemma convert_tops_other:
  "\<forall>name fty args ops. t \<noteq> LLVMFuncOp name fty args ops \<Longrightarrow>
   convert_tops p remap front (t # rest) n ds u = convert_tops p remap (front @ [t]) rest n ds u"
  by (cases t) simp_all

lemma convert_tops_func:
  assumes "convert_tops p remap front (LLVMFuncOp name fty args ops # rest) n ds u
           = Inr (success, m', ds')"
  obtains r where
    "convert_block p remap ops (start_block front name fty args ops rest n ds u)
     = Inr (success, r)"
    and "convert_tops p remap (tops_before r @ [LLVMFuncOp name fty args (ops_before r)])
           rest (next_value r) (diagnostics r) (untracked r) = Inr (success, m', ds')"
  using assms
  by (auto simp: start_block_def split: sum.splits LogicalResult.splits)

lemma convert_tops_success_induct [consumes 1, case_names Nil Other Func]:
  assumes "convert_tops p remap front tops n ds u = Inr (success, m', ds')"
    and "P m' []"
    and "\<And>t rest front. \<forall>name fty args ops. t \<noteq> LLVMFuncOp name fty args ops \<Longrightarrow>
           P (front @ [t]) rest \<Longrightarrow> P front (t # rest)"
    and "\<And>name fty args ops rest front n ds u r.
           convert_block p remap ops (start_block front name fty args ops rest n ds u)
           = Inr (success, r) \<Longrightarrow>
           P (tops_before r @ [LLVMFuncOp name fty args (ops_before r)]) rest \<Longrightarrow>
           P front (LLVMFuncOp name fty args ops # rest)"
  shows "P front tops"
  using assms(1)
proof (induction tops arbitrary: front n ds u)
  case Nil
  then show ?case using assms(2) by simp
next
  case (Cons t rest)
  show ?case
  proof (cases "\<forall>name fty args ops. t \<noteq> LLVMFuncOp name fty args ops")
    case True
    from Cons.prems have "convert_tops p remap (front @ [t]) rest n ds u = Inr (success, m', ds')"
      unfolding convert_tops_other [OF True] .
    then have "P (front @ [t]) rest" by (rule Cons.IH)
    with True show ?thesis by (rule assms(3))
  next
    case False
    then obtain name fty args ops where t: "t = LLVMFuncOp name fty args ops"
      by blast
    from Cons.prems [unfolded t] obtain r where
      r: "convert_block p remap ops (start_block front name fty args ops rest n ds u)
          = Inr (success, r)"
         "convert_tops p remap (tops_before r @ [LLVMFuncOp name fty args (ops_before r)])
            rest (next_value r) (diagnostics r) (untracked r) = Inr (success, m', ds')"
      by (rule convert_tops_func)
    from r(2) have "P (tops_before r @ [LLVMFuncOp name fty args (ops_before r)]) rest"
      by (rule Cons.IH)
    with r(1) show ?thesis unfolding t by (rule assms(4))
  qed
qed

lemma launch_free_append: "launch_free (xs @ ys) = (launch_free xs \<and> launch_free ys)"
  by (simp add: launch_free_def)

lemma launch_free_plain: "list_all plain xs \<Longrightarrow> launch_free xs"
  by (simp add: launch_free_def plain_def list_all_iff)

lemma launch_free_loop_ops: "launch_free (loop_ops sp ap z tys i as n)"
  by (induction as arbitrary: i n) (simp_all add: launch_free_def)

lemma launch_free_params_ops: "launch_free (params_ops arguments n)"
  using launch_free_loop_ops by (simp add: params_ops_def Let_def launch_free_def)

lemma launch_free_global_ops: "launch_free (global_ops n name v)"
  by (simp add: global_ops_def launch_free_def)

lemma frame_ops_update [simp]:
  "frame (r\<lparr>ops_after := ys\<rparr>) = frame r"
  "frame (r\<lparr>ops_before := xs\<rparr>) = frame r"
  by (simp_all add: frame_def)

lemma entry_point_decl_no_gpu:
  "list_all (\<lambda>t. \<not> isGPUModuleOp t \<and> getBody t = []) (entry_point_decl p m)"
  by (simp add: entry_point_decl_if)

text \<open>What one successful rewrite does to the state the driver gave it.\<close>

lemma matchAndRewrite_step:
  assumes "matchAndRewrite p l operands r = Inr (success, r1)"
  obtains new xs where
    "tops_before r1 = new @ tops_before r"
    and "list_all (\<lambda>t. \<not> isGPUModuleOp t \<and> getBody t = []) new"
    and "ops_before r1 = ops_before r @ xs" and "launch_free xs"
    and "tops_after r1 = tops_after r" and "ops_after r1 = ops_after r"
    and "parent_name r1 = parent_name r" and "parent_type r1 = parent_type r"
    and "parent_args r1 = parent_args r" and "diagnostics r1 = diagnostics r"
    and "frame r1 = new @ frame r"
proof -
  from assms obtain km blob context_arg other_args arguments xs k where
    plain: "list_all plain xs"
    and r1: "r1 = grows r
                (entry_point_decl p (frame r)
                 @ [kernel_name_global km l, blob_global km blob])
                (global_ops (next_value r) (getName km @ ''_blob'') blob
                 @ global_ops (next_value r + 3)
                     (getName km @ ''_'' @ getKernelName l @ ''_kernel_name'')
                     (getKernelName l @ [CHR 0x00])
                 @ xs
                 @ params_ops arguments (next_value r + 6 + k)
                 @ [launch_call l context_arg (next_value r) operands
                      (Val (next_value r + 6 + k + 3) llvm_pointer_pointer_type)])
                (6 + k + (5 + 4 * length arguments))"
    by (rule matchAndRewrite_successD)
  show ?thesis
  proof (rule that)
    show "tops_before r1 =
            (entry_point_decl p (frame r) @ [kernel_name_global km l, blob_global km blob])
            @ tops_before r"
      by (simp add: r1 grows_fields)
    show "list_all (\<lambda>t. \<not> isGPUModuleOp t \<and> getBody t = [])
            (entry_point_decl p (frame r) @ [kernel_name_global km l, blob_global km blob])"
      using entry_point_decl_no_gpu [of p "frame r"]
      by (simp add: kernel_name_global_def blob_global_def)
    show "ops_before r1 = ops_before r @
            (global_ops (next_value r) (getName km @ ''_blob'') blob
                 @ global_ops (next_value r + 3)
                     (getName km @ ''_'' @ getKernelName l @ ''_kernel_name'')
                     (getKernelName l @ [CHR 0x00])
                 @ xs
                 @ params_ops arguments (next_value r + 6 + k)
                 @ [launch_call l context_arg (next_value r) operands
                      (Val (next_value r + 6 + k + 3) llvm_pointer_pointer_type)])"
      by (simp add: r1 grows_fields)
    show "launch_free
            (global_ops (next_value r) (getName km @ ''_blob'') blob
                 @ global_ops (next_value r + 3)
                     (getName km @ ''_'' @ getKernelName l @ ''_kernel_name'')
                     (getKernelName l @ [CHR 0x00])
                 @ xs
                 @ params_ops arguments (next_value r + 6 + k)
                 @ [launch_call l context_arg (next_value r) operands
                      (Val (next_value r + 6 + k + 3) llvm_pointer_pointer_type)])"
      using launch_free_plain [OF plain]
      by (simp add: launch_free_append launch_free_global_ops launch_free_params_ops)
         (simp add: launch_free_def launch_call_def)
    show "frame r1 =
            (entry_point_decl p (frame r) @ [kernel_name_global km l, blob_global km blob])
            @ frame r"
      by (simp add: r1 frame_grows)
  qed (simp_all add: r1 grows_fields)
qed

lemma convert_block_frame:
  assumes "convert_block p remap ops r = Inr (success, r')"
  shows "parent_name r' = parent_name r \<and> parent_type r' = parent_type r
         \<and> parent_args r' = parent_args r \<and> tops_after r' = tops_after r
         \<and> diagnostics r' = diagnostics r"
  using assms
proof (induction rule: convert_block_success_induct)
  case Nil
  show ?case by simp
next
  case (Other x rest r)
  then show ?case by simp
next
  case (Launch l rest r r1)
  from Launch(1) show ?case
    by (rule matchAndRewrite_step) (use Launch(2) in simp)
qed

lemma convert_block_launch_free:
  assumes "convert_block p remap ops r = Inr (success, r')"
  shows "launch_free (ops_before r) \<longrightarrow> launch_free (ops_before r')"
  using assms
proof (induction rule: convert_block_success_induct)
  case Nil
  show ?case by simp
next
  case (Other x rest r)
  then show ?case by (simp add: launch_free_def)
next
  case (Launch l rest r r1)
  from Launch(1) show ?case
    by (rule matchAndRewrite_step) (use Launch(2) in \<open>simp add: launch_free_append\<close>)
qed

lemma convert_block_bodies:
  assumes "convert_block p remap ops r = Inr (success, r')"
  shows "bodies_launch_free (tops_before r) \<longrightarrow> bodies_launch_free (tops_before r')"
  using assms
proof (induction rule: convert_block_success_induct)
  case Nil
  show ?case by simp
next
  case (Other x rest r)
  then show ?case by simp
next
  case (Launch l rest r r1)
  from Launch(1) show ?case
  proof (rule matchAndRewrite_step)
    fix new
    assume "tops_before r1 = new @ tops_before (r\<lparr>ops_after := rest\<rparr>)"
      and "list_all (\<lambda>t. \<not> isGPUModuleOp t \<and> getBody t = []) new"
    then have "bodies_launch_free (tops_before r) \<longrightarrow> bodies_launch_free (tops_before r1)"
      by (auto simp: bodies_launch_free_def list_all_iff launch_free_def)
    with Launch(2) show ?thesis by simp
  qed
qed

lemma convert_block_settled:
  assumes "convert_block p remap ops r = Inr (success, r')"
  shows "settled m0 (frame r) \<longrightarrow>
         settled m0 (frame r') \<and> (\<forall>l. LaunchFuncOp l \<in> set ops \<longrightarrow> accepts_in p m0 l)"
  using assms
proof (induction rule: convert_block_success_induct)
  case Nil
  show ?case by simp
next
  case (Other x rest r)
  then show ?case by (cases x) auto
next
  case (Launch l rest r r1)
  show ?case
  proof
    assume s: "settled m0 (frame r)"
    then have "settled m0 (module_view l (r\<lparr>ops_after := rest\<rparr>))"
      by (rule settled_shape [rotated]) (simp add: map_shape_module_view)
    moreover have "accepts_in p (module_view l (r\<lparr>ops_after := rest\<rparr>)) l"
      using Launch(1) by (rule matchAndRewrite_accepts)
    ultimately have acc: "accepts_in p m0 l"
      by (rule accepts_in_settled)
    from Launch(1) have "settled m0 (frame r1)"
    proof (rule matchAndRewrite_step)
      fix new
      assume "frame r1 = new @ frame (r\<lparr>ops_after := rest\<rparr>)"
        and "list_all (\<lambda>t. \<not> isGPUModuleOp t \<and> getBody t = []) new"
      then show ?thesis
        using settled_cons [OF s, of new] by (simp add: list_all_iff)
    qed
    with Launch(2) acc
    show "settled m0 (frame r') \<and>
          (\<forall>l'. LaunchFuncOp l' \<in> set (LaunchFuncOp l # rest) \<longrightarrow> accepts_in p m0 l')"
      by auto
  qed
qed

lemma start_block_fields:
  "tops_before (start_block front name fty args ops rest n ds u) = front"
  "ops_before (start_block front name fty args ops rest n ds u) = []"
  "parent_name (start_block front name fty args ops rest n ds u) = name"
  "parent_type (start_block front name fty args ops rest n ds u) = fty"
  "parent_args (start_block front name fty args ops rest n ds u) = args"
  "tops_after (start_block front name fty args ops rest n ds u) = rest"
  "frame (start_block front name fty args ops rest n ds u)
   = front @ [LLVMFuncOp name fty args []] @ rest"
  by (simp_all add: start_block_def frame_def)

lemma convert_tops_bodies:
  assumes "convert_tops p remap front tops n ds u = Inr (success, m', ds')"
  shows "bodies_launch_free front \<longrightarrow> bodies_launch_free m'"
  using assms
proof (induction rule: convert_tops_success_induct)
  case Nil
  show ?case by simp
next
  case (Other t rest front)
  then show ?case
    by (cases t) (simp_all add: bodies_launch_free_def launch_free_def)
next
  case (Func name fty args ops rest front n ds u r)
  from convert_block_bodies [OF Func(1)] convert_block_launch_free [OF Func(1)] Func(2)
  show ?case
    by (simp add: start_block_fields bodies_launch_free_def launch_free_def)
qed

lemma convert_tops_settled:
  assumes "convert_tops p remap front tops n ds u = Inr (success, m', ds')"
  shows "settled m0 (front @ tops) \<longrightarrow>
         settled m0 m'
         \<and> (\<forall>t\<in>set tops. \<forall>l. LaunchFuncOp l \<in> set (getBody t) \<longrightarrow> accepts_in p m0 l)"
  using assms
proof (induction rule: convert_tops_success_induct)
  case Nil
  show ?case by simp
next
  case (Other t rest front)
  then show ?case by (cases t) auto
next
  case (Func name fty args ops rest front n ds u r)
  let ?r0 = "start_block front name fty args ops rest n ds u"
  show ?case
  proof
    assume s: "settled m0 (front @ LLVMFuncOp name fty args ops # rest)"
    then have "settled m0 (frame ?r0)"
      by (rule settled_shape [rotated]) (simp add: start_block_fields)
    with convert_block_settled [OF Func(1), of m0] have
      s': "settled m0 (frame r)"
      and acc: "\<forall>l. LaunchFuncOp l \<in> set ops \<longrightarrow> accepts_in p m0 l"
      by simp_all
    from convert_block_frame [OF Func(1)] have
      "frame r = tops_before r @ [LLVMFuncOp name fty args []] @ rest"
      by (simp add: frame_def start_block_fields)
    with s' have "settled m0 ((tops_before r @ [LLVMFuncOp name fty args (ops_before r)]) @ rest)"
      by (auto elim!: settled_shape [rotated])
    with Func(2) acc
    show "settled m0 m' \<and>
          (\<forall>t\<in>set (LLVMFuncOp name fty args ops # rest).
              \<forall>l. LaunchFuncOp l \<in> set (getBody t) \<longrightarrow> accepts_in p m0 l)"
      by auto
  qed
qed

lemma applyFullConversion_success:
  assumes "applyFullConversion p remap m = Inr (success, m', ds)"
  shows "bodies_launch_free m'" and "settled m m'"
    and "\<forall>t\<in>set m. \<forall>l. LaunchFuncOp l \<in> set (getBody t) \<longrightarrow> accepts_in p m l"
proof -
  from assms have c: "convert_tops p remap [] m (next_free m) [] [] = Inr (success, m', ds)"
    by (auto simp: applyFullConversion_def split: sum.splits LogicalResult.splits)
  from convert_tops_bodies [OF c] show "bodies_launch_free m'"
    by (simp add: bodies_launch_free_def)
  from convert_tops_settled [OF c, of m] show "settled m m'"
    and "\<forall>t\<in>set m. \<forall>l. LaunchFuncOp l \<in> set (getBody t) \<longrightarrow> accepts_in p m l"
    by (simp_all add: settled_refl)
qed

lemma runOnOperation_cases:
  assumes "runOnOperation p remap m = Inr st"
  obtains res m' where "applyFullConversion p remap m = Inr (res, m', pass_diagnostics st)"
    and "module_after st = strip_gpu_modules m'" and "pass_failed st = (res = failure)"
  using assms
  by (auto simp: runOnOperation_def split: sum.splits)

lemma pass_success_accepts:
  assumes "runOnOperation p remap m = Inr st" and "\<not> pass_failed st"
    and "t \<in> set m" and "LaunchFuncOp l \<in> set (getBody t)"
  shows "accepts_in p m l"
proof -
  from assms(1) obtain res m' where
    a: "applyFullConversion p remap m = Inr (res, m', pass_diagnostics st)"
    and f: "pass_failed st = (res = failure)"
    by (rule runOnOperation_cases)
  from f assms(2) have "res = success" by (cases res) simp_all
  with a assms(3,4) applyFullConversion_success(3) [of p remap m m' "pass_diagnostics st"]
  show ?thesis by blast
qed

lemmas ex_defs = ex_pattern_def ex_descriptor_def ex_remap_def ex_launch_def
  ex_async_launch_def ex_gpu_module_def ex_func_def ex_module_def ex_rewriter_def

lemma pass_fails_unless_accepted:
  assumes "t \<in> set m" and "LaunchFuncOp l \<in> set (getBody t)" and "\<not> accepts_in p m l"
  shows "case runOnOperation p remap m of Inl e \<Rightarrow> True | Inr st \<Rightarrow> pass_failed st"
proof (cases "runOnOperation p remap m")
  case (Inl e)
  then show ?thesis by simp
next
  case (Inr st)
  with assms pass_success_accepts [of p remap m st t l] show ?thesis
    by auto
qed

lemma matchAndRewrite_no_string_attr:
  assumes "asyncDependencies l = []" and "asyncToken l = None"
    and "lookupNearestSymbolFrom_GPUModuleOp (module_view l r) (getKernelModuleName l)
         = Some km"
    and "getAttrOfType_StringAttr km (gpu_binary_annotation p) = None"
  shows "matchAndRewrite p l operands r =
           Inr (failure,
                r\<lparr>diagnostics := diagnostics r
                   @ [OpError (getName km)
                        (''missing '' @ gpu_binary_annotation p @ '' attribute'')]\<rparr>)"
  using assms by (simp add: matchAndRewrite_def emitOpError_def)

lemma strip_gpu_modules_none: "list_all (\<lambda>t. \<not> isGPUModuleOp t) (strip_gpu_modules m)"
  by (simp add: strip_gpu_modules_def list_all_iff)

lemma bodies_launch_free_strip:
  "bodies_launch_free m \<Longrightarrow> bodies_launch_free (strip_gpu_modules m)"
  by (simp add: bodies_launch_free_def strip_gpu_modules_def list_all_iff)

lemmas eval_defs = runOnOperation_def applyFullConversion_def matchAndRewrite_def
  notifyMatchFailure_def emitOpError_def strip_gpu_modules_def module_view_def
  lookupNearestSymbolFrom_GPUModuleOp_def lookupNearestSymbolFrom_LLVMFuncOp_def
  lookupSymbolIn_def createGlobalString_def create_def insert_op_def
  insert_at_module_start_def generateParamsArray_def MemRefDescriptor_unpack_def
  UnrankedMemRefDescriptor_unpack_def take_back_def getNumKernelOperands_def
  getOperands_def kNumConfigOperands_def next_free_def adaptor_operand_def
  entry_point_type_def llvm_intptr_type_def llvm_void_type_def llvm_int8_type_def
  llvm_int32_type_def llvm_int64_type_def llvm_pointer_type_def
  llvm_pointer_pointer_type_def kTfWrapperLibaryLaunchHelperName_def Let_def
  moduleBuilder_create_def

lemma ex_run_succeeds:
  "case runOnOperation ex_pattern ex_remap ex_module of
     Inl e \<Rightarrow> False | Inr st \<Rightarrow> \<not> pass_failed st"
  by (simp add: eval_defs ex_defs)

lemma plain_loop_ops: "list_all plain (loop_ops sp ap z tys i as n)"
  by (induction as arbitrary: i n) (simp_all add: plain_def)

lemma plain_params_ops: "list_all plain (params_ops arguments n)"
  using plain_loop_ops by (simp add: params_ops_def Let_def plain_def)

lemma plain_global_ops: "list_all plain (global_ops n name v)"
  by (simp add: global_ops_def plain_def)

lemma global_of_global_ops:
  "global_of (global_ops n name v @ rest) (Val (n + 2) llvm_pointer_type) = Some name"
  by (simp add: global_of_def defining_op_def global_ops_def)

lemma global_of_second_global_ops:
  "global_of (global_ops n name1 v1 @ global_ops (n + 3) name2 v2 @ rest)
     (Val (n + 5) llvm_pointer_type) = Some name2"
  by (simp add: global_of_def defining_op_def global_ops_def)

lemma lookup_GPUModuleOp_Some:
  assumes "lookupNearestSymbolFrom_GPUModuleOp m n = Some km"
  obtains attrs where "km = GPUModuleOp n attrs" and "km \<in> set m"
proof -
  from assms obtain t where t: "find (\<lambda>t. getName t = n) m = Some t"
    by (auto simp: lookupNearestSymbolFrom_GPUModuleOp_def lookupSymbolIn_def
        split: option.splits)
  then have "getName t = n" "t \<in> set m"
    by (auto simp: find_Some_iff)
  with assms t that show ?thesis
    by (cases t)
       (auto simp: lookupNearestSymbolFrom_GPUModuleOp_def lookupSymbolIn_def)
qed

lemma getAttrOfType_StringAttr_Some:
  "getAttrOfType_StringAttr (GPUModuleOp n attrs) key = Some s
   \<longleftrightarrow> map_of attrs key = Some (StringAttr s)"
  by (auto split: option.splits attr.splits)

lemma ex_rewrite_succeeds:
  "\<exists>r'. matchAndRewrite ex_pattern ex_launch (map ex_remap (getOperands ex_launch))
          (ex_rewriter [ex_gpu_module]) = Inr (success, r')"
  by (simp add: eval_defs ex_defs)

lemma adaptor_operand_sync:
  "asyncDependencies l = [] \<Longrightarrow> adaptor_operand l operands k = operands ! k"
  by (simp add: adaptor_operand_def)

lemma dims_of_getOperands:
  assumes "asyncDependencies l = []"
  shows "map ((!) (map remap (getOperands l))) [0, 1, 2, 3, 4, 5]
         = map remap [gridSizeX l, gridSizeY l, gridSizeZ l,
                      blockSizeX l, blockSizeY l, blockSizeZ l]"
  using assms by (simp add: getOperands_def)

lemma length_UnrankedMemRefDescriptor_unpack:
  "length (fst (UnrankedMemRefDescriptor_unpack d b)) = 2"
  by (simp add: UnrankedMemRefDescriptor_unpack_def Let_def length_extract_all
      del: extract_all.simps)

lemma length_MemRefDescriptor_unpack:
  "length (fst (MemRefDescriptor_unpack d rank b)) = 3 + 2 * rank"
  by (simp add: MemRefDescriptor_unpack_def Let_def length_extract_all
      del: extract_all.simps)

lemma length_promoteOperands:
  "length xs = length ys \<Longrightarrow>
   length (fst (promoteOperands xs ys b)) = sum_list (map (\<lambda>v. promoted_size (getType v)) xs)"
proof (induction xs ys b rule: promoteOperands.induct)
  case (1 operand opOperands llvmOperand operands b)
  from "1.prems" have len: "length opOperands = length operands" by simp
  show ?case
  proof (cases "getType operand")
    case UnrankedMemRefType
    let ?b1 = "snd (UnrankedMemRefDescriptor_unpack llvmOperand b)"
    have "length (fst (promoteOperands opOperands operands ?b1))
          = sum_list (map (\<lambda>v. promoted_size (getType v)) opOperands)"
      using "1.IH" UnrankedMemRefType len by (metis prod.collapse)
    with UnrankedMemRefType show ?thesis
      by (simp add: split_def Let_def length_UnrankedMemRefDescriptor_unpack)
  next
    case (MemRefType rank)
    let ?b1 = "snd (MemRefDescriptor_unpack llvmOperand rank b)"
    have "length (fst (promoteOperands opOperands operands ?b1))
          = sum_list (map (\<lambda>v. promoted_size (getType v)) opOperands)"
      using "1.IH" MemRefType len by (metis prod.collapse)
    with MemRefType show ?thesis
      by (simp add: split_def Let_def length_MemRefDescriptor_unpack)
  qed (use "1.IH" len in \<open>simp_all add: split_def Let_def\<close>)
qed simp_all

lemma take_back_kernelOperands:
  "take_back (getNumKernelOperands l) (getOperands l) = kernelOperands l"
  by (simp add: take_back_def getNumKernelOperands_def getOperands_def kNumConfigOperands_def)

lemma length_take_back_operands:
  "length operands = length (getOperands l) \<Longrightarrow>
   length (take_back (getNumKernelOperands l) operands) = length (kernelOperands l)"
  by (simp add: take_back_def getNumKernelOperands_def getOperands_def kNumConfigOperands_def)

lemma array_length_params_ops:
  "array_length (params_ops arguments n) (Val (n + 3) llvm_pointer_pointer_type)
   = Some (int (length arguments))"
  by (simp add: array_length_def defining_op_def params_ops_def Let_def)

lemma sum_list_promoted_ge:
  "length vs \<le> sum_list (map (\<lambda>v. promoted_size (getType v)) vs)"
proof (induction vs)
  case Nil
  show ?case by simp
next
  case (Cons v vs)
  have "1 \<le> promoted_size (getType v)"
    by (cases "getType v") simp_all
  with Cons show ?case by simp
qed

lemma sum_list_promoted_gt:
  assumes "v \<in> set vs" and "1 < promoted_size (getType v)"
  shows "length vs < sum_list (map (\<lambda>v. promoted_size (getType v)) vs)"
  using assms
proof (induction vs)
  case Nil
  then show ?case by simp
next
  case (Cons w ws)
  have w: "1 \<le> promoted_size (getType w)"
    by (cases "getType w") simp_all
  show ?case
  proof (cases "v = w")
    case True
    with Cons.prems sum_list_promoted_ge [of ws] show ?thesis by simp
  next
    case False
    with Cons have "length ws < sum_list (map (\<lambda>v. promoted_size (getType v)) ws)"
      by simp
    with w show ?thesis by simp
  qed
qed







lemma isFuncNamed_shape: "isFuncNamed n (shape t) = isFuncNamed n t"
  by (cases t) simp_all

lemma entry_point_decls_shape: "entry_point_decls (map shape m) = entry_point_decls m"
  by (induction m) (simp_all add: entry_point_decls_def isFuncNamed_shape)

lemma entry_point_ok_shape: "entry_point_ok (map shape m) = entry_point_ok m"
  by (simp add: entry_point_ok_def entry_point_decls_shape has_entry_point_shape)

lemma entry_point_ok_cong:
  "map shape m = map shape m' \<Longrightarrow> entry_point_ok m = entry_point_ok m'"
  using entry_point_ok_shape [of m] entry_point_ok_shape [of m'] by simp

lemma has_entry_point_cong:
  "map shape m = map shape m' \<Longrightarrow> has_entry_point m = has_entry_point m'"
  using has_entry_point_shape [of m] has_entry_point_shape [of m'] by simp

lemma has_entry_point_decl:
  "has_entry_point (LLVMFuncOp kTfWrapperLibaryLaunchHelperName t args ops # m)"
  by (simp add: has_entry_point_Cons)

lemma entry_point_decls_globals:
  "entry_point_decls (kernel_name_global km l # blob_global km blob # m) = entry_point_decls m"
  by (simp add: entry_point_decls_def kernel_name_global_def blob_global_def)

text \<open>After a rewrite the entry point is declared once and found.\<close>

lemma entry_point_after_rewrite:
  assumes "entry_point_ok m"
  shows "has_entry_point (entry_point_decl p m @ kernel_name_global km l # blob_global km blob # m)
         \<and> entry_point_ok
             (entry_point_decl p m @ kernel_name_global km l # blob_global km blob # m)"
proof (cases "has_entry_point m")
  case True
  with assms show ?thesis
    by (simp add: entry_point_decl_if entry_point_ok_def has_entry_point_globals
        entry_point_decls_globals)
next
  case False
  with assms have "entry_point_decls m = 0"
    by (simp add: entry_point_ok_def)
  with False show ?thesis
    using entry_point_decls_globals [of km l blob m]
    by (simp add: entry_point_decl_if entry_point_ok_def has_entry_point_decl)
       (simp add: entry_point_decls_def)
qed

lemma frame_after_rewrite:
  assumes "matchAndRewrite p l operands r = Inr (success, r1)"
  obtains km blob where
    "lookupNearestSymbolFrom_GPUModuleOp (module_view l r) (getKernelModuleName l) = Some km"
    and "tops_before r1 =
           entry_point_decl p (frame r) @ kernel_name_global km l # blob_global km blob
           # tops_before r"
    and "frame r1 =
           entry_point_decl p (frame r) @ kernel_name_global km l # blob_global km blob
           # frame r"
proof -
  from assms obtain km blob where
    km: "lookupNearestSymbolFrom_GPUModuleOp (module_view l r) (getKernelModuleName l)
         = Some km"
    and t: "tops_before r1 =
              (entry_point_decl p (frame r) @ [kernel_name_global km l, blob_global km blob])
              @ tops_before r"
    and f: "frame r1 =
              (entry_point_decl p (frame r) @ [kernel_name_global km l, blob_global km blob])
              @ frame r"
    by (rule matchAndRewrite_successD) (simp add: grows_fields frame_grows)
  from km t f show ?thesis
    by (intro that [of km blob]) simp_all
qed

lemma convert_block_entry_point:
  assumes "convert_block p remap ops r = Inr (success, r')"
  shows "entry_point_ok (frame r) \<longrightarrow>
         entry_point_ok (frame r')
         \<and> (launches_of ops \<noteq> [] \<or> has_entry_point (frame r) \<longrightarrow> has_entry_point (frame r'))"
  using assms
proof (induction rule: convert_block_success_induct)
  case Nil
  show ?case by simp
next
  case (Other x rest r)
  then show ?case by (cases x) simp_all
next
  case (Launch l rest r r1)
  show ?case
  proof
    assume ok: "entry_point_ok (frame r)"
    from Launch(1) obtain km blob where
      "frame r1 =
         entry_point_decl p (frame r) @ kernel_name_global km l # blob_global km blob
         # frame r"
      by (rule frame_after_rewrite) simp
    with entry_point_after_rewrite [OF ok, of p km l blob] have
      "has_entry_point (frame r1)" "entry_point_ok (frame r1)"
      by simp_all
    with Launch(2) show "entry_point_ok (frame r') \<and>
          (launches_of (LaunchFuncOp l # rest) \<noteq> [] \<or> has_entry_point (frame r)
           \<longrightarrow> has_entry_point (frame r'))"
      by simp
  qed
qed

lemma convert_tops_entry_point:
  assumes "convert_tops p remap front tops n ds u = Inr (success, m', ds')"
  shows "entry_point_ok (front @ tops) \<longrightarrow>
         entry_point_ok m'
         \<and> (launches tops \<noteq> [] \<or> has_entry_point (front @ tops) \<longrightarrow> has_entry_point m')"
  using assms
proof (induction rule: convert_tops_success_induct)
  case Nil
  show ?case by (simp add: launches_def)
next
  case (Other t rest front)
  then show ?case by (cases t) (simp_all add: launches_def)
next
  case (Func name fty args ops rest front n ds u r)
  let ?r0 = "start_block front name fty args ops rest n ds u"
  let ?w = "front @ LLVMFuncOp name fty args ops # rest"
  let ?w' = "(tops_before r @ [LLVMFuncOp name fty args (ops_before r)]) @ rest"
  have s0: "map shape ?w = map shape (frame ?r0)"
    by (simp add: start_block_fields)
  from convert_block_frame [OF Func(1)] have
    s1: "map shape ?w' = map shape (frame r)"
    by (simp add: frame_def start_block_fields)
  show ?case
  proof
    assume "entry_point_ok ?w"
    then have ok0: "entry_point_ok (frame ?r0)"
      by (simp only: entry_point_ok_cong [OF s0])
    with convert_block_entry_point [OF Func(1)] have
      ok1: "entry_point_ok (frame r)"
      and has1: "launches_of ops \<noteq> [] \<or> has_entry_point (frame ?r0)
                 \<longrightarrow> has_entry_point (frame r)"
      by simp_all
    from ok1 have ok': "entry_point_ok ?w'"
      by (simp only: entry_point_ok_cong [OF s1])
    from has1 have has': "launches_of ops \<noteq> [] \<or> has_entry_point ?w \<longrightarrow> has_entry_point ?w'"
      by (simp only: has_entry_point_cong [OF s0] has_entry_point_cong [OF s1])
    from Func(2) ok' has'
    show "entry_point_ok m' \<and>
          (launches (LLVMFuncOp name fty args ops # rest) \<noteq> [] \<or> has_entry_point ?w
           \<longrightarrow> has_entry_point m')"
      by (auto simp: launches_def)
  qed
qed


lemma no_func_named:
  "\<forall>t\<in>set m. getName t \<noteq> n \<Longrightarrow> filter (isFuncNamed n) m = []"
proof (induction m)
  case Nil
  show ?case by simp
next
  case (Cons t m)
  then show ?case by (cases t) simp_all
qed

lemma entry_point_decls_Cons:
  "entry_point_decls (t # m) =
     (if isFuncNamed kTfWrapperLibaryLaunchHelperName t then 1 else 0) + entry_point_decls m"
  by (simp add: entry_point_decls_def)

lemma distinct_entry_point_ok:
  "distinct (map getName m) \<Longrightarrow> entry_point_ok m"
proof (induction m)
  case Nil
  show ?case
    by (simp add: entry_point_ok_def entry_point_decls_def has_entry_point_def
        lookupNearestSymbolFrom_LLVMFuncOp_def lookupSymbolIn_def)
next
  case (Cons t m)
  show ?case
  proof (cases "getName t = kTfWrapperLibaryLaunchHelperName")
    case True
    with Cons.prems have "\<forall>u\<in>set m. getName u \<noteq> kTfWrapperLibaryLaunchHelperName"
      by (auto simp: image_iff)
    then have "entry_point_decls m = 0"
      by (simp add: entry_point_decls_def no_func_named)
    with True show ?thesis
      by (simp add: entry_point_ok_def entry_point_decls_Cons has_entry_point_Cons)
  next
    case False
    then have "\<not> isFuncNamed kTfWrapperLibaryLaunchHelperName t"
      by (cases t) simp_all
    with False Cons show ?thesis
      by (simp add: entry_point_ok_def entry_point_decls_Cons has_entry_point_Cons)
  qed
qed

lemma globals_named_append:
  "globals_named n (xs @ ys) = globals_named n xs + globals_named n ys"
  by (simp add: globals_named_def)

lemma globals_named_entry_point_decl: "globals_named n (entry_point_decl p m) = 0"
  by (simp add: globals_named_def entry_point_decl_if)

lemma kernel_name_not_blob: "a @ ''_'' @ b @ ''_kernel_name'' \<noteq> k @ ''_blob''"
proof
  assume "a @ ''_'' @ b @ ''_kernel_name'' = k @ ''_blob''"
  then have "last ((a @ ''_'' @ b) @ ''_kernel_name'') = last (k @ ''_blob'')"
    by simp
  then show False
    unfolding last_append by simp
qed

lemma globals_named_rewrite:
  "globals_named (k @ ''_blob'')
     (entry_point_decl p m @ kernel_name_global km l # blob_global km blob # tops)
   = globals_named (k @ ''_blob'') tops + (if getName km = k then 1 else 0)"
  using kernel_name_not_blob [of "getName km" "getKernelName l" k]
    globals_named_entry_point_decl [of "k @ ''_blob''" p m]
  by (simp add: globals_named_append)
     (simp add: globals_named_def kernel_name_global_def blob_global_def)

lemma launches_on_Cons:
  "launches_on k (l # ls) = (if getKernelModuleName l = k then 1 else 0) + launches_on k ls"
  by (simp add: launches_on_def)

lemma launches_on_append: "launches_on k (xs @ ys) = launches_on k xs + launches_on k ys"
  by (simp add: launches_on_def)

lemma convert_block_blobs:
  assumes "convert_block p remap ops r = Inr (success, r')"
  shows "globals_named (k @ ''_blob'') (tops_before r') =
           globals_named (k @ ''_blob'') (tops_before r) + launches_on k (launches_of ops)"
  using assms
proof (induction rule: convert_block_success_induct)
  case Nil
  show ?case by (simp add: launches_on_def)
next
  case (Other x rest r)
  then show ?case by (cases x) simp_all
next
  case (Launch l rest r r1)
  from Launch(1) obtain km blob where
    km: "lookupNearestSymbolFrom_GPUModuleOp (module_view l (r\<lparr>ops_after := rest\<rparr>))
           (getKernelModuleName l) = Some km"
    and t: "tops_before r1 =
           entry_point_decl p (frame (r\<lparr>ops_after := rest\<rparr>))
           @ kernel_name_global km l # blob_global km blob
           # tops_before (r\<lparr>ops_after := rest\<rparr>)"
    by (rule frame_after_rewrite)
  from km have "getName km = getKernelModuleName l"
    by (rule lookup_GPUModuleOp_Some) simp
  with t have "globals_named (k @ ''_blob'') (tops_before r1) =
               globals_named (k @ ''_blob'') (tops_before r)
               + (if getKernelModuleName l = k then 1 else 0)"
    by (simp add: globals_named_rewrite)
  with Launch(2) show ?case
    by (simp add: launches_on_Cons)
qed

lemma globals_named_func: "globals_named n [LLVMFuncOp name fty args ops] = 0"
  by (simp add: globals_named_def)

lemma convert_tops_blobs:
  assumes "convert_tops p remap front tops n ds u = Inr (success, m', ds')"
  shows "globals_named (k @ ''_blob'') m' =
           globals_named (k @ ''_blob'') (front @ tops) + launches_on k (launches tops)"
  using assms
proof (induction rule: convert_tops_success_induct)
  case Nil
  show ?case by (simp add: launches_def launches_on_def)
next
  case (Other t rest front)
  then show ?case by (cases t) (simp_all add: launches_def)
next
  case (Func name fty args ops rest front n ds u r)
  from convert_block_blobs [OF Func(1), of k] Func(2) show ?case
    by (simp add: start_block_fields globals_named_append globals_named_func launches_def
        launches_on_append)
       (simp add: globals_named_def)
qed

lemma globals_named_strip:
  "globals_named n (strip_gpu_modules m) = globals_named n m"
proof (induction m)
  case Nil
  show ?case by (simp add: globals_named_def strip_gpu_modules_def)
next
  case (Cons t m)
  then show ?case
    by (cases t) (simp_all add: globals_named_def strip_gpu_modules_def)
qed

lemma entry_point_decls_strip:
  "entry_point_decls (strip_gpu_modules m) = entry_point_decls m"
proof (induction m)
  case Nil
  show ?case by (simp add: entry_point_decls_def strip_gpu_modules_def)
next
  case (Cons t m)
  then show ?case
    by (cases t) (simp_all add: entry_point_decls_def strip_gpu_modules_def)
qed

lemma two_launches_run:
  "pass_symbols (runOnOperation ex_pattern ex_remap ex_two_launches)
   = Some (False,
           [''K_kern_kernel_name'', ''K_blob'', ''tfKernelGenLaunchKernel'',
            ''K_kern_kernel_name'', ''K_blob'', ''f''])"
  by (simp add: pass_symbols_def eval_defs ex_defs ex_scalar_launch_def ex_two_launches_def)

lemma sync_then_async_run:
  "pass_symbols (runOnOperation ex_pattern ex_remap ex_sync_then_async)
   = Some (True, [''K_kern_kernel_name'', ''K_blob'', ''f''])"
  by (simp add: pass_symbols_def eval_defs ex_defs ex_scalar_launch_def
      ex_sync_then_async_def)

section \<open>The claims\<close>

text \<open>
  Claim C1 says that two launch operations on the same GPU module leave one blob constant,
  the second request for a name returning the existing constant. The pattern calls
  \<^verbatim>\<open>LLVM::createGlobalString\<close> for every launch without looking the name up: after a
  successful run over a function that launches the kernel of \<open>K\<close> twice the module holds
  two globals \<open>K_blob\<close> (and two globals \<open>K_kern_kernel_name\<close>), and one declaration of
  the entry point.
\<close>

theorem blob_constant_per_launch_counterexample:
  "pass_symbols (runOnOperation ex_pattern ex_remap ex_two_launches)
   = Some (False,
           [''K_kern_kernel_name'', ''K_blob'', ''tfKernelGenLaunchKernel'',
            ''K_kern_kernel_name'', ''K_blob'', ''f''])
   \<and> map getKernelModuleName (launches ex_two_launches) = [''K'', ''K'']"
  using two_launches_run
  by (simp add: launches_def ex_two_launches_def ex_func_def ex_gpu_module_def
      ex_scalar_launch_def ex_launch_def)

text \<open>
  Claim C1, amended. After a successful pass run over a module with distinct symbol names
  the module holds at most one declaration of the runtime entry point, exactly one when
  the module held a launch operation: the declaration is looked up by name and created
  only when the lookup finds none. Constants are not looked up: each rewritten launch
  operation on the GPU module \<open>k\<close> adds a global named \<open>k_blob\<close>, so the number of globals
  of that name grows by the number of launch operations on \<open>k\<close>.
\<close>

theorem constants_per_launch_one_entry_point:
  assumes "runOnOperation p remap m = Inr st" and "\<not> pass_failed st"
    and "distinct (map getName m)"
  shows "globals_named (k @ ''_blob'') (module_after st)
           = globals_named (k @ ''_blob'') m + launches_on k (launches m)
         \<and> entry_point_decls (module_after st) \<le> 1
         \<and> (launches m \<noteq> [] \<longrightarrow> entry_point_decls (module_after st) = 1)
         \<and> (launches m = [] \<longrightarrow> entry_point_decls (module_after st) = entry_point_decls m)"
proof -
  from assms(1) obtain res m' where
    a: "applyFullConversion p remap m = Inr (res, m', pass_diagnostics st)"
    and m': "module_after st = strip_gpu_modules m'"
    and f: "pass_failed st = (res = failure)"
    by (rule runOnOperation_cases)
  from f assms(2) have "res = success" by (cases res) simp_all
  with a have c: "convert_tops p remap [] m (next_free m) [] [] = Inr (success, m', pass_diagnostics st)"
    by (auto simp: applyFullConversion_def split: sum.splits LogicalResult.splits)
  from assms(3) have ok: "entry_point_ok m"
    by (rule distinct_entry_point_ok)
  with convert_tops_entry_point [OF c] have
    ok': "entry_point_ok m'" and has: "launches m \<noteq> [] \<longrightarrow> has_entry_point m'"
    by simp_all
  have none: "launches m = [] \<longrightarrow> entry_point_decls m' = entry_point_decls m"
  proof
    assume "launches m = []"
    moreover have "convert_tops p remap front tops n ds u = Inr (success, m1, ds1) \<Longrightarrow>
                   launches tops = [] \<Longrightarrow> map shape m1 = map shape (front @ tops)"
      for front tops n ds u m1 ds1
    proof (induction rule: convert_tops_success_induct)
      case Nil
      show ?case by simp
    next
      case (Other t rest front)
      then show ?case by (simp add: launches_def)
    next
      case (Func name fty args ops rest front n ds u r)
      from Func(3) have l: "launches_of ops = []" "launches rest = []"
        by (simp_all add: launches_def)
      have "convert_block p remap ops r0 = Inr (success, r) \<Longrightarrow> launches_of ops = []
            \<Longrightarrow> tops_before r = tops_before r0" for r0
      proof (induction ops arbitrary: r0)
        case Nil
        then show ?case by simp
      next
        case (Cons x xs)
        then show ?case by (cases x) simp_all
      qed
      from this [OF Func(1) l(1)] Func(2) [OF l(2)] show ?case
        by (simp add: start_block_fields)
    qed
    ultimately have "map shape m' = map shape m"
      using c by fastforce
    then show "entry_point_decls m' = entry_point_decls m"
      using entry_point_decls_shape [of m'] entry_point_decls_shape [of m] by simp
  qed
  from ok' have le: "entry_point_decls m' \<le> 1"
    by (simp add: entry_point_ok_def split: if_splits)
  from ok' has have one: "launches m \<noteq> [] \<longrightarrow> entry_point_decls m' = 1"
    by (simp add: entry_point_ok_def)
  from convert_tops_blobs [OF c, of k] le one none show ?thesis
    by (simp add: m' globals_named_strip entry_point_decls_strip)
qed

theorem constants_per_launch_one_entry_point_witness:
  "\<exists>st. runOnOperation ex_pattern ex_remap ex_two_launches = Inr st \<and> \<not> pass_failed st
     \<and> distinct (map getName ex_two_launches)
     \<and> globals_named ''K_blob'' (module_after st) = 2
     \<and> entry_point_decls (module_after st) = 1"
proof -
  from two_launches_run obtain st where
    st: "runOnOperation ex_pattern ex_remap ex_two_launches = Inr st" "\<not> pass_failed st"
    by (cases "runOnOperation ex_pattern ex_remap ex_two_launches")
       (simp_all add: pass_symbols_def)
  have d: "distinct (map getName ex_two_launches)"
    by (simp add: ex_two_launches_def ex_func_def ex_gpu_module_def)
  have l: "launches ex_two_launches = [ex_scalar_launch, ex_scalar_launch]"
    by (simp add: launches_def ex_two_launches_def ex_func_def ex_gpu_module_def)
  have g: "globals_named (''K'' @ ''_blob'') ex_two_launches = 0"
    by (simp add: globals_named_def ex_two_launches_def ex_func_def ex_gpu_module_def)
  have n: "launches_on ''K'' [ex_scalar_launch, ex_scalar_launch] = 2"
    by (simp add: launches_on_def ex_scalar_launch_def ex_launch_def)
  from constants_per_launch_one_entry_point [OF st d, of "''K''"] l g n have
    "globals_named ''K_blob'' (module_after st) = 2
     \<and> entry_point_decls (module_after st) = 1"
    by simp
  with st d show ?thesis by blast
qed

text \<open>
  Claim C4. A launch operation with an asynchronous dependency or an asynchronous token is
  rejected by the pattern: the pattern reports the match failure and returns failure
  without emitting anything, so no call of the runtime entry point is created for it. A
  pass run over a module that holds such a launch does not succeed: when it returns, it
  has signalled failure.
\<close>

theorem async_launch_rejected:
  assumes "asyncDependencies l \<noteq> [] \<or> asyncToken l \<noteq> None"
  shows "matchAndRewrite p l operands r =
           Inr (failure,
                r\<lparr>diagnostics := diagnostics r
                   @ [MatchFailure ''Cannot convert with async dependency or result.'']\<rparr>)
         \<and> (\<forall>t\<in>set m. LaunchFuncOp l \<in> set (getBody t) \<longrightarrow>
              (case runOnOperation p remap m of
                 Inl e \<Rightarrow> True
               | Inr st \<Rightarrow> pass_failed st))"
proof (intro conjI ballI impI)
  show "matchAndRewrite p l operands r =
           Inr (failure,
                r\<lparr>diagnostics := diagnostics r
                   @ [MatchFailure ''Cannot convert with async dependency or result.'']\<rparr>)"
    using assms by (auto simp: matchAndRewrite_def notifyMatchFailure_def)
next
  fix t
  assume t: "t \<in> set m" "LaunchFuncOp l \<in> set (getBody t)"
  from assms have "\<not> accepts_in p m l"
    by (auto simp: accepts_in_def)
  with t show "case runOnOperation p remap m of
                 Inl e \<Rightarrow> True
               | Inr st \<Rightarrow> pass_failed st"
    by (rule pass_fails_unless_accepted)
qed

theorem async_launch_rejected_witness:
  "asyncToken ex_async_launch \<noteq> None
   \<and> matchAndRewrite ex_pattern ex_async_launch (map ex_remap (getOperands ex_async_launch))
       (ex_rewriter [ex_gpu_module])
     = Inr (failure,
            (ex_rewriter [ex_gpu_module])
              \<lparr>diagnostics := [MatchFailure ''Cannot convert with async dependency or result.'']\<rparr>)
   \<and> runOnOperation ex_pattern ex_remap [ex_gpu_module, ex_func [LaunchFuncOp ex_async_launch]]
     = Inr \<lparr>module_after = [ex_func [LaunchFuncOp ex_async_launch]], pass_failed = True,
            pass_diagnostics =
              [MatchFailure ''Cannot convert with async dependency or result.'']\<rparr>"
proof -
  have a: "asyncDependencies ex_async_launch \<noteq> [] \<or> asyncToken ex_async_launch \<noteq> None"
    by (simp add: ex_defs)
  have run: "runOnOperation ex_pattern ex_remap [ex_gpu_module, ex_func [LaunchFuncOp ex_async_launch]]
     = Inr \<lparr>module_after = [ex_func [LaunchFuncOp ex_async_launch]], pass_failed = True,
            pass_diagnostics =
              [MatchFailure ''Cannot convert with async dependency or result.'']\<rparr>"
    by (simp add: runOnOperation_def applyFullConversion_def matchAndRewrite_def
        notifyMatchFailure_def strip_gpu_modules_def ex_defs)
  from async_launch_rejected [OF a, of ex_pattern
      "map ex_remap (getOperands ex_async_launch)" "ex_rewriter [ex_gpu_module]"
      "[ex_gpu_module, ex_func [LaunchFuncOp ex_async_launch]]" ex_remap]
  show ?thesis
    using run by (simp add: ex_rewriter_def ex_async_launch_def)
qed

text \<open>
  Claim C8. When the GPU module that a (synchronous) launch operation resolves to has no
  attribute under the configured annotation key, the pattern emits an error on that
  module that names the expected key, and returns failure. A pass run over a module that
  holds such a launch does not succeed: when it returns, it has signalled failure.
\<close>

theorem missing_annotation_rejected:
  assumes "map_of attrs (gpu_binary_annotation p) = None"
  shows "(asyncDependencies l = [] \<and> asyncToken l = None \<and>
          lookupNearestSymbolFrom_GPUModuleOp (module_view l r) (getKernelModuleName l)
          = Some (GPUModuleOp k attrs) \<longrightarrow>
          matchAndRewrite p l operands r =
            Inr (failure,
                 r\<lparr>diagnostics := diagnostics r
                    @ [OpError k (''missing '' @ gpu_binary_annotation p @ '' attribute'')]\<rparr>))
         \<and> (lookupNearestSymbolFrom_GPUModuleOp m (getKernelModuleName l)
             = Some (GPUModuleOp k attrs) \<longrightarrow>
             (\<forall>t\<in>set m. LaunchFuncOp l \<in> set (getBody t) \<longrightarrow>
                (case runOnOperation p remap m of
                   Inl e \<Rightarrow> True
                 | Inr st \<Rightarrow> pass_failed st)))"
proof (intro conjI impI ballI)
  assume "asyncDependencies l = [] \<and> asyncToken l = None \<and>
          lookupNearestSymbolFrom_GPUModuleOp (module_view l r) (getKernelModuleName l)
          = Some (GPUModuleOp k attrs)"
  with assms matchAndRewrite_no_string_attr [of l r "GPUModuleOp k attrs" p operands]
  show "matchAndRewrite p l operands r =
            Inr (failure,
                 r\<lparr>diagnostics := diagnostics r
                    @ [OpError k (''missing '' @ gpu_binary_annotation p @ '' attribute'')]\<rparr>)"
    by simp
next
  fix t
  assume "lookupNearestSymbolFrom_GPUModuleOp m (getKernelModuleName l)
          = Some (GPUModuleOp k attrs)"
  with assms have "\<not> accepts_in p m l"
    by (simp add: accepts_in_def)
  moreover assume "t \<in> set m" "LaunchFuncOp l \<in> set (getBody t)"
  ultimately show "case runOnOperation p remap m of
                     Inl e \<Rightarrow> True | Inr st \<Rightarrow> pass_failed st"
    using pass_fails_unless_accepted by blast
qed

theorem missing_annotation_rejected_witness:
  "matchAndRewrite (ex_pattern\<lparr>gpu_binary_annotation := ''binary''\<rparr>) ex_launch
       (map ex_remap (getOperands ex_launch)) (ex_rewriter [ex_gpu_module])
     = Inr (failure,
            (ex_rewriter [ex_gpu_module])
              \<lparr>diagnostics := [OpError ''K'' ''missing binary attribute'']\<rparr>)
   \<and> runOnOperation (ex_pattern\<lparr>gpu_binary_annotation := ''binary''\<rparr>) ex_remap ex_module
     = Inr \<lparr>module_after = [ex_func [LaunchFuncOp ex_launch]], pass_failed = True,
            pass_diagnostics = [OpError ''K'' ''missing binary attribute'']\<rparr>"
proof -
  let ?p = "ex_pattern\<lparr>gpu_binary_annotation := ''binary''\<rparr>"
  have a: "map_of [(''bin'', StringAttr [CHR 0xAB])] (gpu_binary_annotation ?p) = None"
    by (simp add: ex_defs)
  have run: "runOnOperation ?p ex_remap ex_module
     = Inr \<lparr>module_after = [ex_func [LaunchFuncOp ex_launch]], pass_failed = True,
            pass_diagnostics = [OpError ''K'' ''missing binary attribute'']\<rparr>"
    by (simp add: runOnOperation_def applyFullConversion_def matchAndRewrite_def
        emitOpError_def strip_gpu_modules_def module_view_def
        lookupNearestSymbolFrom_GPUModuleOp_def lookupSymbolIn_def ex_defs)
  from missing_annotation_rejected [OF a, of ex_launch "ex_rewriter [ex_gpu_module]" "''K''"
      "map ex_remap (getOperands ex_launch)" ex_module ex_remap]
  show ?thesis
    using run
    by (simp add: module_view_def lookupNearestSymbolFrom_GPUModuleOp_def lookupSymbolIn_def
        ex_defs)
qed

text \<open>
  Claim C9. An attribute under the configured annotation key that is not a string
  attribute is read as absent: the pattern emits the same missing-attribute error on the
  GPU module and returns failure, and a pass run over a module that holds such a launch
  does not succeed.
\<close>

theorem non_string_annotation_rejected:
  assumes "map_of attrs (gpu_binary_annotation p) = Some a" and "\<forall>s. a \<noteq> StringAttr s"
  shows "getAttrOfType_StringAttr (GPUModuleOp k attrs) (gpu_binary_annotation p) = None
         \<and> (asyncDependencies l = [] \<and> asyncToken l = None \<and>
          lookupNearestSymbolFrom_GPUModuleOp (module_view l r) (getKernelModuleName l)
          = Some (GPUModuleOp k attrs) \<longrightarrow>
          matchAndRewrite p l operands r =
            Inr (failure,
                 r\<lparr>diagnostics := diagnostics r
                    @ [OpError k (''missing '' @ gpu_binary_annotation p @ '' attribute'')]\<rparr>))
         \<and> (lookupNearestSymbolFrom_GPUModuleOp m (getKernelModuleName l)
             = Some (GPUModuleOp k attrs) \<longrightarrow>
             (\<forall>t\<in>set m. LaunchFuncOp l \<in> set (getBody t) \<longrightarrow>
                (case runOnOperation p remap m of
                   Inl e \<Rightarrow> True
                 | Inr st \<Rightarrow> pass_failed st)))"
proof -
  from assms have none:
    "getAttrOfType_StringAttr (GPUModuleOp k attrs) (gpu_binary_annotation p) = None"
    by (cases a) simp_all
  show ?thesis
  proof (intro conjI impI ballI)
    show "getAttrOfType_StringAttr (GPUModuleOp k attrs) (gpu_binary_annotation p) = None"
      by (rule none)
  next
    assume "asyncDependencies l = [] \<and> asyncToken l = None \<and>
          lookupNearestSymbolFrom_GPUModuleOp (module_view l r) (getKernelModuleName l)
          = Some (GPUModuleOp k attrs)"
    with none matchAndRewrite_no_string_attr [of l r "GPUModuleOp k attrs" p operands]
    show "matchAndRewrite p l operands r =
            Inr (failure,
                 r\<lparr>diagnostics := diagnostics r
                    @ [OpError k (''missing '' @ gpu_binary_annotation p @ '' attribute'')]\<rparr>)"
      by simp
  next
    fix t
    assume "lookupNearestSymbolFrom_GPUModuleOp m (getKernelModuleName l)
            = Some (GPUModuleOp k attrs)"
    with none have "\<not> accepts_in p m l"
      by (simp add: accepts_in_def)
    moreover assume "t \<in> set m" "LaunchFuncOp l \<in> set (getBody t)"
    ultimately show "case runOnOperation p remap m of
                       Inl e \<Rightarrow> True | Inr st \<Rightarrow> pass_failed st"
      using pass_fails_unless_accepted by blast
  qed
qed

theorem non_string_annotation_rejected_witness:
  "getAttrOfType_StringAttr (GPUModuleOp ''K'' [(''bin'', IntegerAttr 171)]) ''bin'' = None
   \<and> matchAndRewrite ex_pattern ex_launch (map ex_remap (getOperands ex_launch))
       (ex_rewriter [GPUModuleOp ''K'' [(''bin'', IntegerAttr 171)]])
     = Inr (failure,
            (ex_rewriter [GPUModuleOp ''K'' [(''bin'', IntegerAttr 171)]])
              \<lparr>diagnostics := [OpError ''K'' ''missing bin attribute'']\<rparr>)
   \<and> runOnOperation ex_pattern ex_remap
       [GPUModuleOp ''K'' [(''bin'', IntegerAttr 171)], ex_func [LaunchFuncOp ex_launch]]
     = Inr \<lparr>module_after = [ex_func [LaunchFuncOp ex_launch]], pass_failed = True,
            pass_diagnostics = [OpError ''K'' ''missing bin attribute'']\<rparr>"
proof -
  have a: "map_of [(''bin'', IntegerAttr 171)] (gpu_binary_annotation ex_pattern)
           = Some (IntegerAttr 171)"
    by (simp add: ex_defs)
  have b: "\<forall>s. IntegerAttr 171 \<noteq> StringAttr s"
    by simp
  have run: "runOnOperation ex_pattern ex_remap
       [GPUModuleOp ''K'' [(''bin'', IntegerAttr 171)], ex_func [LaunchFuncOp ex_launch]]
     = Inr \<lparr>module_after = [ex_func [LaunchFuncOp ex_launch]], pass_failed = True,
            pass_diagnostics = [OpError ''K'' ''missing bin attribute'']\<rparr>"
    by (simp add: runOnOperation_def applyFullConversion_def matchAndRewrite_def
        emitOpError_def strip_gpu_modules_def module_view_def
        lookupNearestSymbolFrom_GPUModuleOp_def lookupSymbolIn_def ex_defs)
  from non_string_annotation_rejected [OF a b, of "''K''" ex_launch
      "ex_rewriter [GPUModuleOp ''K'' [(''bin'', IntegerAttr 171)]]"
      "map ex_remap (getOperands ex_launch)"
      "[GPUModuleOp ''K'' [(''bin'', IntegerAttr 171)], ex_func [LaunchFuncOp ex_launch]]"
      ex_remap]
  show ?thesis
    using run
    by (simp add: module_view_def lookupNearestSymbolFrom_GPUModuleOp_def lookupSymbolIn_def
        ex_defs)
qed

text \<open>
  Claim C2 says that a failed conversion skips the cleanup sweep and leaves the GPU
  modules in place. \<^verbatim>\<open>runOnOperation\<close> signals the failure and goes on to the sweep: on
  a module with the GPU module \<open>K\<close> and an asynchronous launch the pass fails and \<open>K\<close> is
  gone.
\<close>

theorem cleanup_after_failed_conversion_counterexample:
  "runOnOperation ex_pattern ex_remap [ex_gpu_module, ex_func [LaunchFuncOp ex_async_launch]]
   = Inr \<lparr>module_after = [ex_func [LaunchFuncOp ex_async_launch]], pass_failed = True,
          pass_diagnostics =
            [MatchFailure ''Cannot convert with async dependency or result.'']\<rparr>
   \<and> isGPUModuleOp ex_gpu_module"
  by (simp add: runOnOperation_def applyFullConversion_def matchAndRewrite_def
      notifyMatchFailure_def strip_gpu_modules_def ex_defs)

text \<open>
  Claim C2, amended. When the conversion fails, the pass signals failure and the cleanup
  sweep is performed all the same: the module afterwards is the module in the state the
  conversion driver left it, with every GPU module of its body removed.
\<close>

theorem cleanup_after_failed_conversion:
  assumes "runOnOperation p remap m = Inr st" and "pass_failed st"
  shows "list_all (\<lambda>t. \<not> isGPUModuleOp t) (module_after st)
         \<and> (\<exists>m'. applyFullConversion p remap m = Inr (failure, m', pass_diagnostics st)
                \<and> module_after st = strip_gpu_modules m')"
proof -
  from assms(1) obtain res m' where
    a: "applyFullConversion p remap m = Inr (res, m', pass_diagnostics st)"
    and m': "module_after st = strip_gpu_modules m'"
    and f: "pass_failed st = (res = failure)"
    by (rule runOnOperation_cases)
  from f assms(2) have "res = failure" by simp
  with a m' show ?thesis
    by (auto simp: strip_gpu_modules_none)
qed

theorem cleanup_after_failed_conversion_witness:
  "\<exists>st. runOnOperation ex_pattern ex_remap ex_sync_then_async = Inr st \<and> pass_failed st
     \<and> list_ex isGPUModuleOp ex_sync_then_async
     \<and> map getName (module_after st) = [''K_kern_kernel_name'', ''K_blob'', ''f'']
     \<and> list_all (\<lambda>t. \<not> isGPUModuleOp t) (module_after st)
     \<and> (\<exists>m'. applyFullConversion ex_pattern ex_remap ex_sync_then_async
                  = Inr (failure, m', pass_diagnostics st)
                \<and> module_after st = strip_gpu_modules m')"
proof -
  from sync_then_async_run obtain st where
    st: "runOnOperation ex_pattern ex_remap ex_sync_then_async = Inr st" "pass_failed st"
    and names: "map getName (module_after st) = [''K_kern_kernel_name'', ''K_blob'', ''f'']"
    by (cases "runOnOperation ex_pattern ex_remap ex_sync_then_async")
       (simp_all add: pass_symbols_def)
  have "list_ex isGPUModuleOp ex_sync_then_async"
    by (simp add: ex_sync_then_async_def ex_gpu_module_def)
  with cleanup_after_failed_conversion [OF st] st names show ?thesis
    by (intro exI [of _ st]) simp
qed

text \<open>
  Claim C3. After a successful pass run no function body holds a launch operation and the
  module holds no GPU module; a successful run is only possible when every launch
  operation of the input is synchronous.
\<close>

theorem no_residual_launches_or_device_modules:
  assumes "runOnOperation p remap m = Inr st" and "\<not> pass_failed st"
  shows "list_all (\<lambda>t. list_all (\<lambda>x. \<not> isLaunchFuncOp x) (getBody t)) (module_after st)
         \<and> list_all (\<lambda>t. \<not> isGPUModuleOp t) (module_after st)
         \<and> (\<forall>t\<in>set m. \<forall>l. LaunchFuncOp l \<in> set (getBody t) \<longrightarrow>
               asyncDependencies l = [] \<and> asyncToken l = None)"
proof -
  from assms(1) obtain res m' where
    a: "applyFullConversion p remap m = Inr (res, m', pass_diagnostics st)"
    and m': "module_after st = strip_gpu_modules m'"
    and f: "pass_failed st = (res = failure)"
    by (rule runOnOperation_cases)
  from f assms(2) have "res = success" by (cases res) simp_all
  with a have "bodies_launch_free m'"
    by (auto dest: applyFullConversion_success(1))
  then have "bodies_launch_free (module_after st)"
    unfolding m' by (rule bodies_launch_free_strip)
  moreover have "\<forall>t\<in>set m. \<forall>l. LaunchFuncOp l \<in> set (getBody t) \<longrightarrow>
               asyncDependencies l = [] \<and> asyncToken l = None"
    using pass_success_accepts [OF assms] by (auto simp: accepts_in_def)
  ultimately show ?thesis
    by (simp add: m' strip_gpu_modules_none bodies_launch_free_def launch_free_def)
qed

theorem no_residual_launches_or_device_modules_witness:
  "\<exists>st. runOnOperation ex_pattern ex_remap ex_module = Inr st \<and> \<not> pass_failed st
     \<and> list_all (\<lambda>t. list_all (\<lambda>x. \<not> isLaunchFuncOp x) (getBody t)) (module_after st)
     \<and> list_all (\<lambda>t. \<not> isGPUModuleOp t) (module_after st)"
proof -
  from ex_run_succeeds obtain st where
    st: "runOnOperation ex_pattern ex_remap ex_module = Inr st" "\<not> pass_failed st"
    by (cases "runOnOperation ex_pattern ex_remap ex_module") simp_all
  from no_residual_launches_or_device_modules [OF st] st show ?thesis
    by blast
qed

text \<open>
  Claim C6. A successful rewrite of a launch operation on the GPU module \<open>M\<close> and the
  kernel \<open>k\<close> creates, at the start of the module, the constant global \<open>M_k_kernel_name\<close>
  whose value is the bytes of \<open>k\<close> followed by one appended zero byte, and the constant
  global \<open>M_blob\<close> whose value is the string under the annotation key of \<open>M\<close>.
\<close>

theorem constants_emitted:
  assumes "matchAndRewrite p l operands r = Inr (success, r')"
  shows "\<exists>attrs blob.
           lookupNearestSymbolFrom_GPUModuleOp (module_view l r) (getKernelModuleName l)
             = Some (GPUModuleOp (getKernelModuleName l) attrs)
           \<and> map_of attrs (gpu_binary_annotation p) = Some (StringAttr blob)
           \<and> tops_before r' =
               entry_point_decl p (frame r)
               @ [GlobalOp (getKernelModuleName l @ ''_'' @ getKernelName l @ ''_kernel_name'')
                    (LLVMArrayTy (LLVMIntTy 8) (length (getKernelName l) + 1)) True Internal
                    (getKernelName l @ [CHR 0x00]),
                  GlobalOp (getKernelModuleName l @ ''_blob'')
                    (LLVMArrayTy (LLVMIntTy 8) (length blob)) True Internal blob]
               @ tops_before r"
proof -
  from assms obtain km blob where
    km: "lookupNearestSymbolFrom_GPUModuleOp (module_view l r) (getKernelModuleName l)
         = Some km"
    and blob: "getAttrOfType_StringAttr km (gpu_binary_annotation p) = Some blob"
    and r': "tops_before r' =
               (entry_point_decl p (frame r)
                @ [kernel_name_global km l, blob_global km blob]) @ tops_before r"
    by (rule matchAndRewrite_successD) (simp add: grows_fields)
  from km obtain attrs where attrs: "km = GPUModuleOp (getKernelModuleName l) attrs"
    by (rule lookup_GPUModuleOp_Some)
  from blob have "map_of attrs (gpu_binary_annotation p) = Some (StringAttr blob)"
    by (simp only: attrs getAttrOfType_StringAttr_Some)
  with km r' show ?thesis
    by (simp add: attrs kernel_name_global_def blob_global_def llvm_int8_type_def)
qed

theorem constants_emitted_witness:
  "\<exists>r'. matchAndRewrite ex_pattern ex_launch (map ex_remap (getOperands ex_launch))
          (ex_rewriter [ex_gpu_module]) = Inr (success, r')
        \<and> tops_before r' =
            [LLVMFuncOp ''tfKernelGenLaunchKernel'' (entry_point_type ex_pattern) [] [],
             GlobalOp ''K_kern_kernel_name'' (LLVMArrayTy (LLVMIntTy 8) 5) True Internal
               [CHR ''k'', CHR ''e'', CHR ''r'', CHR ''n'', CHR 0x00],
             GlobalOp ''K_blob'' (LLVMArrayTy (LLVMIntTy 8) 1) True Internal [CHR 0xAB],
             ex_gpu_module]"
proof -
  from ex_rewrite_succeeds obtain r' where
    r': "matchAndRewrite ex_pattern ex_launch (map ex_remap (getOperands ex_launch))
          (ex_rewriter [ex_gpu_module]) = Inr (success, r')"
    by blast
  have look: "lookupNearestSymbolFrom_GPUModuleOp
                (module_view ex_launch (ex_rewriter [ex_gpu_module])) ''K''
              = Some (GPUModuleOp ''K'' [(''bin'', StringAttr [CHR 0xAB])])"
    by (simp add: module_view_def lookupNearestSymbolFrom_GPUModuleOp_def lookupSymbolIn_def
        ex_defs)
  have decl: "entry_point_decl ex_pattern (frame (ex_rewriter [ex_gpu_module]))
              = [LLVMFuncOp ''tfKernelGenLaunchKernel'' (entry_point_type ex_pattern) [] []]"
    by (simp add: entry_point_decl_def frame_def lookupNearestSymbolFrom_LLVMFuncOp_def
        lookupSymbolIn_def kTfWrapperLibaryLaunchHelperName_def ex_defs)
  from constants_emitted [OF r'] look decl have
    "tops_before r' =
            [LLVMFuncOp ''tfKernelGenLaunchKernel'' (entry_point_type ex_pattern) [] [],
             GlobalOp ''K_kern_kernel_name'' (LLVMArrayTy (LLVMIntTy 8) 5) True Internal
               [CHR ''k'', CHR ''e'', CHR ''r'', CHR ''n'', CHR 0x00],
             GlobalOp ''K_blob'' (LLVMArrayTy (LLVMIntTy 8) 1) True Internal [CHR 0xAB],
             ex_gpu_module]"
    by (auto simp: ex_defs)
  with r' show ?thesis by blast
qed

text \<open>
  Claim C7. A successful rewrite ends with one call of \<open>tfKernelGenLaunchKernel\<close>, the only
  one it emits, of result type void. Its operands are, in this order: the first argument
  of the enclosing function, the address of the first byte of the blob global, the
  address of the first byte of the kernel-name global, the six dimension operands as the
  conversion driver handed them over (positions 0 to 5 of the converted operands, which
  are the remapped grid and block sizes of the launch operation), and the value that
  \<^verbatim>\<open>generateParamsArray\<close> returned.
\<close>

theorem runtime_call_emitted:
  assumes "matchAndRewrite p l operands r = Inr (success, r')"
  shows "\<exists>xs context_arg other_args blob_ptr name_ptr attrs blob kernel_params r3.
           parent_args r = context_arg # other_args
           \<and> lookupNearestSymbolFrom_GPUModuleOp (module_view l r) (getKernelModuleName l)
               = Some (GPUModuleOp (getKernelModuleName l) attrs)
           \<and> map_of attrs (gpu_binary_annotation p) = Some (StringAttr blob)
           \<and> generateParamsArray l operands
                 (after_globals l (GPUModuleOp (getKernelModuleName l) attrs) blob r)
               = Inr (kernel_params, r3)
           \<and> ops_before r' =
               ops_before r @ xs
               @ [CallOp LLVMVoidTy ''tfKernelGenLaunchKernel''
                    [context_arg, blob_ptr, name_ptr,
                     operands ! 0, operands ! 1, operands ! 2,
                     operands ! 3, operands ! 4, operands ! 5,
                     kernel_params]]
           \<and> list_all (\<lambda>x. \<not> isLaunchFuncOp x \<and> \<not> isCallOf ''tfKernelGenLaunchKernel'' x) xs
           \<and> global_of xs blob_ptr = Some (getKernelModuleName l @ ''_blob'')
           \<and> global_of xs name_ptr
               = Some (getKernelModuleName l @ ''_'' @ getKernelName l @ ''_kernel_name'')
           \<and> (operands = map remap (getOperands l) \<longrightarrow>
                map ((!) operands) [0, 1, 2, 3, 4, 5]
                = map remap [gridSizeX l, gridSizeY l, gridSizeZ l,
                             blockSizeX l, blockSizeY l, blockSizeZ l])"
proof -
  from assms obtain km blob context_arg other_args arguments xs k where
    sync: "asyncDependencies l = []"
    and km: "lookupNearestSymbolFrom_GPUModuleOp (module_view l r) (getKernelModuleName l)
         = Some km"
    and blob: "getAttrOfType_StringAttr km (gpu_binary_annotation p) = Some blob"
    and args: "parent_args r = context_arg # other_args"
    and prom: "promoteOperands (take_back (getNumKernelOperands l) (getOperands l))
           (take_back (getNumKernelOperands l) operands) (after_globals l km blob r)
         = (arguments, grows (after_globals l km blob r) [] xs k)"
    and plain: "list_all plain xs"
    and r': "r' = grows r
                (entry_point_decl p (frame r)
                 @ [kernel_name_global km l, blob_global km blob])
                (global_ops (next_value r) (getName km @ ''_blob'') blob
                 @ global_ops (next_value r + 3)
                     (getName km @ ''_'' @ getKernelName l @ ''_kernel_name'')
                     (getKernelName l @ [CHR 0x00])
                 @ xs
                 @ params_ops arguments (next_value r + 6 + k)
                 @ [launch_call l context_arg (next_value r) operands
                      (Val (next_value r + 6 + k + 3) llvm_pointer_pointer_type)])
                (6 + k + (5 + 4 * length arguments))"
    and ne: "arguments \<noteq> []"
    and ll: "list_all isLLVMType (map getType arguments)"
    by (rule matchAndRewrite_successD)
  from km obtain attrs where attrs: "km = GPUModuleOp (getKernelModuleName l) attrs"
    by (rule lookup_GPUModuleOp_Some)
  let ?n = "next_value r"
  let ?blob_name = "getKernelModuleName l @ ''_blob''"
  let ?name_name = "getKernelModuleName l @ ''_'' @ getKernelName l @ ''_kernel_name''"
  let ?xs = "global_ops ?n ?blob_name blob
             @ global_ops (?n + 3) ?name_name (getKernelName l @ [CHR 0x00])
             @ xs @ params_ops arguments (?n + 6 + k)"
  from generateParamsArray_grows [OF prom ne ll] obtain r3 where
    kp: "generateParamsArray l operands
           (after_globals l (GPUModuleOp (getKernelModuleName l) attrs) blob r)
         = Inr (Val (?n + 6 + k + 3) llvm_pointer_pointer_type, r3)"
    by (simp add: grows_fields after_globals_grows attrs)
  have 1: "ops_before r' =
             ops_before r @ ?xs
             @ [CallOp LLVMVoidTy ''tfKernelGenLaunchKernel''
                  [context_arg, Val (?n + 2) llvm_pointer_type, Val (?n + 5) llvm_pointer_type,
                   operands ! 0, operands ! 1, operands ! 2,
                   operands ! 3, operands ! 4, operands ! 5,
                   Val (?n + 6 + k + 3) llvm_pointer_pointer_type]]"
    by (simp add: r' grows_fields launch_call_def attrs adaptor_operand_sync [OF sync]
        llvm_void_type_def kTfWrapperLibaryLaunchHelperName_def)
  have 2: "list_all (\<lambda>x. \<not> isLaunchFuncOp x \<and> \<not> isCallOf ''tfKernelGenLaunchKernel'' x) ?xs"
    using plain plain_global_ops plain_params_ops
    by (simp add: plain_def [abs_def] kTfWrapperLibaryLaunchHelperName_def)
  have 3: "global_of ?xs (Val (?n + 2) llvm_pointer_type) = Some ?blob_name"
    by (rule global_of_global_ops)
  have 4: "global_of ?xs (Val (?n + 5) llvm_pointer_type) = Some ?name_name"
    by (rule global_of_second_global_ops)
  have 5: "operands = map remap (getOperands l) \<longrightarrow>
           map ((!) operands) [0, 1, 2, 3, 4, 5]
           = map remap [gridSizeX l, gridSizeY l, gridSizeZ l,
                        blockSizeX l, blockSizeY l, blockSizeZ l]"
    using dims_of_getOperands [OF sync, of remap] by simp
  from blob have 6: "map_of attrs (gpu_binary_annotation p) = Some (StringAttr blob)"
    by (simp only: attrs getAttrOfType_StringAttr_Some)
  from args km [unfolded attrs] 6 kp 1 2 3 4 5 show ?thesis
    by blast
qed


theorem runtime_call_emitted_witness:
  "\<exists>r' blob_ptr name_ptr kernel_params.
     matchAndRewrite ex_pattern ex_launch (map ex_remap (getOperands ex_launch))
       (ex_rewriter [ex_gpu_module]) = Inr (success, r')
     \<and> last (ops_before r') =
         CallOp LLVMVoidTy ''tfKernelGenLaunchKernel''
           [Val 0 llvm_pointer_type, blob_ptr, name_ptr,
            Val 1 (LLVMIntTy 64), Val 2 (LLVMIntTy 64), Val 3 (LLVMIntTy 64),
            Val 4 (LLVMIntTy 64), Val 5 (LLVMIntTy 64), Val 6 (LLVMIntTy 64),
            kernel_params]
     \<and> global_of (butlast (ops_before r')) blob_ptr = Some ''K_blob''
     \<and> global_of (butlast (ops_before r')) name_ptr = Some ''K_kern_kernel_name''"
proof -
  let ?operands = "map ex_remap (getOperands ex_launch)"
  from ex_rewrite_succeeds obtain r' where
    r': "matchAndRewrite ex_pattern ex_launch ?operands (ex_rewriter [ex_gpu_module])
         = Inr (success, r')"
    by blast
  have dims: "map ((!) ?operands) [0, 1, 2, 3, 4, 5] =
              [Val 1 (LLVMIntTy 64), Val 2 (LLVMIntTy 64), Val 3 (LLVMIntTy 64),
               Val 4 (LLVMIntTy 64), Val 5 (LLVMIntTy 64), Val 6 (LLVMIntTy 64)]"
    by (simp add: getOperands_def ex_defs)
  from runtime_call_emitted [OF r', of ex_remap]
  obtain xs context_arg other_args blob_ptr name_ptr kernel_params where
    "parent_args (ex_rewriter [ex_gpu_module]) = context_arg # other_args"
    and "ops_before r' =
           ops_before (ex_rewriter [ex_gpu_module]) @ xs
           @ [CallOp LLVMVoidTy ''tfKernelGenLaunchKernel''
                [context_arg, blob_ptr, name_ptr,
                 ?operands ! 0, ?operands ! 1, ?operands ! 2,
                 ?operands ! 3, ?operands ! 4, ?operands ! 5, kernel_params]]"
    and "global_of xs blob_ptr = Some (getKernelModuleName ex_launch @ ''_blob'')"
    and "global_of xs name_ptr
         = Some (getKernelModuleName ex_launch @ ''_''
                 @ getKernelName ex_launch @ ''_kernel_name'')"
    by blast
  with dims have
    "last (ops_before r') =
         CallOp LLVMVoidTy ''tfKernelGenLaunchKernel''
           [Val 0 llvm_pointer_type, blob_ptr, name_ptr,
            Val 1 (LLVMIntTy 64), Val 2 (LLVMIntTy 64), Val 3 (LLVMIntTy 64),
            Val 4 (LLVMIntTy 64), Val 5 (LLVMIntTy 64), Val 6 (LLVMIntTy 64),
            kernel_params]
     \<and> global_of (butlast (ops_before r')) blob_ptr = Some ''K_blob''
     \<and> global_of (butlast (ops_before r')) name_ptr = Some ''K_kern_kernel_name''"
    by (simp add: ex_rewriter_def ex_launch_def butlast_append)
  with r' show ?thesis by blast
qed

text \<open>
  Claim C10. The array that \<^verbatim>\<open>generateParamsArray\<close> allocates has as many elements as
  there are arguments after \<^verbatim>\<open>promoteOperands\<close>. Only the trailing kernel operands of the
  launch operation (and the converted operands at the same positions) are promoted. With
  one converted operand per operand, the number of arguments is the sum of the promoted
  sizes of the kernel operands; it is at least the number of kernel operands, and greater
  as soon as one kernel operand is a memref.
\<close>

theorem params_array_length:
  assumes "promoteOperands (take_back (getNumKernelOperands l) (getOperands l))
             (take_back (getNumKernelOperands l) operands) b = (arguments, b0)"
    and "generateParamsArray l operands b = Inr (array_ptr, b')"
  shows "array_length (drop (length (ops_before b0)) (ops_before b')) array_ptr
           = Some (int (length arguments))
         \<and> take_back (getNumKernelOperands l) (getOperands l) = kernelOperands l
         \<and> (length operands = length (getOperands l) \<longrightarrow>
              take_back (getNumKernelOperands l) operands
                = drop (length (asyncDependencies l) + kNumConfigOperands) operands
              \<and> length arguments
                  = sum_list (map (\<lambda>v. promoted_size (getType v)) (kernelOperands l))
              \<and> getNumKernelOperands l \<le> length arguments
              \<and> ((\<exists>v\<in>set (kernelOperands l). 1 < promoted_size (getType v)) \<longrightarrow>
                   getNumKernelOperands l < length arguments))"
proof (intro conjI impI)
  from generateParamsArray_Inr [OF assms] have
    ne: "arguments \<noteq> []" and ll: "list_all isLLVMType (map getType arguments)"
    by simp_all
  from generateParamsArray_grows [OF assms(1) ne ll] assms(2) have
    "array_ptr = Val (next_value b0 + 3) llvm_pointer_pointer_type"
    and "b' = grows b0 [] (params_ops arguments (next_value b0)) (5 + 4 * length arguments)"
    by simp_all
  then show "array_length (drop (length (ops_before b0)) (ops_before b')) array_ptr
             = Some (int (length arguments))"
    by (simp add: grows_fields array_length_params_ops)
next
  show "take_back (getNumKernelOperands l) (getOperands l) = kernelOperands l"
    by (rule take_back_kernelOperands)
next
  assume len: "length operands = length (getOperands l)"
  then show "take_back (getNumKernelOperands l) operands
             = drop (length (asyncDependencies l) + kNumConfigOperands) operands"
    by (simp add: take_back_def getNumKernelOperands_def getOperands_def
        kNumConfigOperands_def add.commute)
  from length_promoteOperands [of "kernelOperands l"
      "take_back (getNumKernelOperands l) operands" b]
    length_take_back_operands [OF len] assms(1)
  show n: "length arguments
           = sum_list (map (\<lambda>v. promoted_size (getType v)) (kernelOperands l))"
    by (simp add: take_back_kernelOperands)
  have k: "getNumKernelOperands l = length (kernelOperands l)"
    by (simp add: getNumKernelOperands_def getOperands_def kNumConfigOperands_def)
  show "getNumKernelOperands l \<le> length arguments"
    unfolding n k by (rule sum_list_promoted_ge)
  assume "\<exists>v\<in>set (kernelOperands l). 1 < promoted_size (getType v)"
  then show "getNumKernelOperands l < length arguments"
    unfolding n k by (auto intro: sum_list_promoted_gt)
qed

theorem params_array_length_witness:
  "\<exists>arguments b0 array_ptr b'.
     promoteOperands (take_back (getNumKernelOperands ex_launch) (getOperands ex_launch))
       (take_back (getNumKernelOperands ex_launch) (map ex_remap (getOperands ex_launch)))
       (ex_rewriter []) = (arguments, b0)
     \<and> generateParamsArray ex_launch (map ex_remap (getOperands ex_launch)) (ex_rewriter [])
         = Inr (array_ptr, b')
     \<and> array_length (drop (length (ops_before b0)) (ops_before b')) array_ptr = Some 6
     \<and> length arguments = 6 \<and> getNumKernelOperands ex_launch = 2
     \<and> take_back (getNumKernelOperands ex_launch) (getOperands ex_launch)
         = [Val 7 IndexType, Val 8 (MemRefType 1)]"
proof -
  let ?operands = "map ex_remap (getOperands ex_launch)"
  obtain arguments b0 where
    p: "promoteOperands (take_back (getNumKernelOperands ex_launch) (getOperands ex_launch))
          (take_back (getNumKernelOperands ex_launch) ?operands) (ex_rewriter [])
        = (arguments, b0)"
    by (cases "promoteOperands
                 (take_back (getNumKernelOperands ex_launch) (getOperands ex_launch))
                 (take_back (getNumKernelOperands ex_launch) ?operands) (ex_rewriter [])")
  have "\<exists>res. generateParamsArray ex_launch ?operands (ex_rewriter []) = Inr res"
    by (simp add: eval_defs ex_defs)
  then obtain array_ptr b' where
    g: "generateParamsArray ex_launch ?operands (ex_rewriter []) = Inr (array_ptr, b')"
    by force
  have len: "length ?operands = length (getOperands ex_launch)"
    by simp
  have k: "kernelOperands ex_launch = [Val 7 IndexType, Val 8 (MemRefType 1)]"
    by (simp add: ex_launch_def)
  have n: "getNumKernelOperands ex_launch = 2"
    by (simp add: getNumKernelOperands_def getOperands_def kNumConfigOperands_def
        ex_launch_def)
  from params_array_length [OF p g] len have
    "array_length (drop (length (ops_before b0)) (ops_before b')) array_ptr = Some 6
     \<and> length arguments = 6
     \<and> take_back (getNumKernelOperands ex_launch) (getOperands ex_launch)
         = [Val 7 IndexType, Val 8 (MemRefType 1)]"
    by (simp add: k)
  with p g n show ?thesis by blast
qed




end
